theory Spec2Isabelle
  imports Complex_Main "HOL-Library.Multiset" "HOL-Library.Log_Nat"
begin

section \<open>JavaScript numbers\<close>

text \<open>
  The analytics core of demandsense-ai computes on JavaScript numbers, which are IEEE
  doubles. A double is modelled by the real number it denotes, and an operation by the
  exact operation followed by \<open>fl64\<close>, the rounding to the nearest number with a 53-bit
  significand, a tie going to the even significand. The exponent range is not bounded:
  overflow to an infinity and underflow are outside the model. What JavaScript does
  where real arithmetic has no answer is written out: a division by zero gives an
  infinity or NaN, the square root of a negative number gives NaN, and every comparison
  with NaN is false.

  The inventory formulas, the order quantities and the ABC classification round every
  operation with \<open>fl64\<close>. The fill rate, the stockout probability, whose exponential
  has no correctly rounded counterpart, and the seasonality and scenario computations are
  stated over the exact operations.
\<close>

definition rne :: "real \<Rightarrow> int" where
  \<comment> \<open>the nearest integer, a tie going to the even one\<close>
  "rne x =
     (let f = \<lfloor>x\<rfloor>; r = x - of_int f
      in if r < 1 / 2 then f
         else if 1 / 2 < r then f + 1
         else if even f then f else f + 1)"

definition exponent :: "real \<Rightarrow> int" where
  \<comment> \<open>for \<open>x > 0\<close>, the \<open>e\<close> with \<open>2\<^sup>e \<le> x < 2\<^sup>e\<^sup>+\<^sup>1\<close>\<close>
  "exponent x =
     (if 1 \<le> x then bitlen \<lfloor>x\<rfloor> - 1 else - bitlen (\<lceil>1 / x\<rceil> - 1))"

definition fl64 :: "real \<Rightarrow> real" where
  "fl64 x =
     (if x = 0 then 0
      else let ulp = 2 powi (exponent \<bar>x\<bar> - 52)
           in sgn x * of_int (rne (\<bar>x\<bar> / ulp)) * ulp)"

definition double :: "real \<Rightarrow> bool" where
  \<comment> \<open>the real number is the value of a double\<close>
  "double x = (fl64 x = x)"

datatype jsnum = Num real | PosInf | NegInf | NaN

definition js_div :: "real \<Rightarrow> real \<Rightarrow> jsnum" where
  \<comment> \<open>\<open>a / b\<close>; sums that start from the literal \<open>0\<close> are never the negative zero.\<close>
  "js_div a b =
     (if b \<noteq> 0 then Num (fl64 (a / b))
      else if a > 0 then PosInf
      else if a < 0 then NegInf
      else NaN)"

fun js_le :: "jsnum \<Rightarrow> real \<Rightarrow> bool" where
  \<comment> \<open>\<open>x <= c\<close> for a finite constant \<open>c\<close>\<close>
  "js_le (Num x) c = (x \<le> c)"
| "js_le NegInf c = True"
| "js_le PosInf c = False"
| "js_le NaN c = False"

definition js_round :: "real \<Rightarrow> real" where
  \<comment> \<open>\<open>Math.round\<close>: the nearest integer, a tie going towards plus infinity\<close>
  "js_round x = of_int \<lfloor>x + 1 / 2\<rfloor>"

definition round2 :: "real \<Rightarrow> real" where
  \<comment> \<open>the idiom \<open>Math.round(x * 100) / 100\<close> over the exact operations\<close>
  "round2 x = js_round (x * 100) / 100"

definition js_round2 :: "real \<Rightarrow> real" where
  \<comment> \<open>the idiom \<open>Math.round(x * 100) / 100\<close> on a double\<close>
  "js_round2 x = fl64 (js_round (fl64 (x * 100)) / 100)"

definition fsum :: "real list \<Rightarrow> real" where
  \<comment> \<open>\<open>reduce((sum, v) => sum + v, 0)\<close> on doubles\<close>
  "fsum vs = foldl (\<lambda>sum v. fl64 (sum + v)) 0 vs"

section \<open>server/inventory-calculator.js\<close>

subsection \<open>Stateless formulas\<close>

definition calculateEOQ :: "real \<Rightarrow> real \<Rightarrow> real \<Rightarrow> jsnum option" where
  \<comment> \<open>\<open>None\<close> is the \<open>null\<close> returned by the guard on falsy arguments\<close>
  "calculateEOQ annualDemand orderingCost holdingCost =
     (if annualDemand = 0 \<or> orderingCost = 0 \<or> holdingCost = 0 \<or> holdingCost = 0
      then None
      else
        let quotient = fl64 (fl64 (fl64 (2 * annualDemand) * orderingCost) / holdingCost)
        in if quotient < 0 then Some NaN
           else let eoq = fl64 (sqrt quotient) in Some (Num (js_round2 eoq)))"

definition calculateReorderPoint :: "real \<Rightarrow> real \<Rightarrow> real \<Rightarrow> real" where
  "calculateReorderPoint averageDailyDemand leadTimeDays safetyStock =
     fl64 (fl64 (averageDailyDemand * leadTimeDays) + safetyStock)"

definition zScores :: "real \<Rightarrow> real option" where
  \<comment> \<open>the table; a numeric literal denotes the double nearest to it\<close>
  "zScores serviceLevel =
     (if serviceLevel = fl64 0.90 then Some (fl64 1.28)
      else if serviceLevel = fl64 0.95 then Some (fl64 1.65)
      else if serviceLevel = fl64 0.99 then Some (fl64 2.33)
      else None)"

definition calculateSafetyStock :: "real \<Rightarrow> real \<Rightarrow> real \<Rightarrow> real \<Rightarrow> jsnum" where
  "calculateSafetyStock averageDailyDemand leadTimeDays serviceLevel demandStdDev =
     (let z = (case zScores serviceLevel of Some v \<Rightarrow> v | None \<Rightarrow> fl64 1.65)
      in if leadTimeDays < 0 then NaN
         else let safetyStock = fl64 (fl64 (z * demandStdDev) * fl64 (sqrt leadTimeDays))
              in Num (js_round2 safetyStock))"

definition calculateTurnover :: "real \<Rightarrow> real \<Rightarrow> real" where
  "calculateTurnover costOfGoodsSold averageInventory =
     (if averageInventory = 0 \<or> averageInventory = 0 then 0
      else fl64 (costOfGoodsSold / averageInventory))"

definition calculateDIO :: "real \<Rightarrow> real \<Rightarrow> real \<Rightarrow> real" where
  "calculateDIO averageInventory costOfGoodsSold days =
     (if costOfGoodsSold = 0 \<or> costOfGoodsSold = 0 then 0
      else fl64 (fl64 (averageInventory / costOfGoodsSold) * days))"

definition calculateFillRate :: "real \<Rightarrow> real \<Rightarrow> real" where
  "calculateFillRate unitsShipped unitsOrdered =
     (if unitsOrdered = 0 \<or> unitsOrdered = 0 then 1
      else unitsShipped / unitsOrdered)"

definition calculateStockoutProbability :: "real \<Rightarrow> real \<Rightarrow> real \<Rightarrow> real" where
  "calculateStockoutProbability averageDemand safetyStock demandStdDev =
     (if demandStdDev = 0 \<or> demandStdDev = 0 then 0
      else let z = safetyStock / demandStdDev;
               probability = exp (- 0.717 * z - 0.416 * z * z)
           in min 1 (max 0 probability))"

subsection \<open>Optimal order quantity\<close>

text \<open>
  A forecast point as the forecast and scenario code reads and writes it. The last two
  fields are the labels that the scenario routes attach to a perturbed point; the strings
  \<open>`${multiplier}x demand`\<close> and \<open>`${lift}x`\<close> are represented by the number they
  print.
\<close>

record point =
  date :: string
  predicted :: real
  upper_bound :: real
  lower_bound :: real
  scenario_impact :: "real option"
  promotion_lift :: "real option"

record optimal_order =
  recommended :: real
  adjusted :: real
  final :: real
  urgent :: bool
  critical :: bool

definition calculateOptimalOrder :: "point list \<Rightarrow> real \<Rightarrow> real \<Rightarrow> real \<Rightarrow> optimal_order" where
  "calculateOptimalOrder forecast currentStock reorderPoint maxStock =
     (let recommendedOrder = max 0 (fl64 (reorderPoint - currentStock));
          forecastedDemand = foldl (\<lambda>sum f. fl64 (sum + predicted f)) 0 (take 7 forecast);
          adjustedOrder = max recommendedOrder (fl64 (forecastedDemand * fl64 1.2));
          finalOrder = min adjustedOrder (fl64 (maxStock - currentStock))
      in \<lparr> recommended = js_round recommendedOrder,
           adjusted = js_round adjustedOrder,
           final = max 0 (js_round finalOrder),
           urgent = (currentStock < fl64 (reorderPoint * 0.5)),
           critical = (currentStock < fl64 (reorderPoint * 0.25)) \<rparr>)"

subsection \<open>The safety stock and reorder point steps of \<open>calculateHealthMetrics\<close>\<close>

text \<open>
  \<open>calculateHealthMetrics\<close> computes, for one product, the safety stock from the daily
  demand and its standard deviation and passes the value it gets to
  \<open>calculateReorderPoint\<close>. \<open>lead_time_days\<close> is \<open>None\<close> when the product has no such
  field; \<open>product.lead_time_days || 7\<close> replaces a missing or zero lead time by 7.
\<close>

definition healthMetrics_safetyStock :: "real option \<Rightarrow> real \<Rightarrow> real \<Rightarrow> jsnum" where
  "healthMetrics_safetyStock lead_time_days dailyDemand demandStdDev =
     calculateSafetyStock dailyDemand
       (case lead_time_days of None \<Rightarrow> 7 | Some l \<Rightarrow> if l = 0 then 7 else l)
       (fl64 0.95) demandStdDev"

definition healthMetrics_reorderPoint :: "real option \<Rightarrow> real \<Rightarrow> real \<Rightarrow> jsnum" where
  "healthMetrics_reorderPoint lead_time_days dailyDemand demandStdDev =
     (case healthMetrics_safetyStock lead_time_days dailyDemand demandStdDev of
        Num safetyStock \<Rightarrow>
          Num (calculateReorderPoint dailyDemand
                 (case lead_time_days of None \<Rightarrow> 7 | Some l \<Rightarrow> if l = 0 then 7 else l)
                 safetyStock)
      | _ \<Rightarrow> NaN)"

subsection \<open>ABC classification\<close>

text \<open>
  \<open>classifyABC\<close> copies the array it is given, not the items in it, and writes the class
  into each item. The items are therefore objects in a store, a map from addresses to
  objects, and an array is a list of addresses, in which an address may occur more than
  once. The function returns the store it leaves and the array it returns.
\<close>

datatype abc_class = A | B | C

record item =
  item_id :: string
  annualValue :: real
  item_class :: "abc_class option"

type_synonym addr = nat

type_synonym item_store = "addr \<Rightarrow> item"

definition classify_percentage :: "jsnum \<Rightarrow> abc_class" where
  \<comment> \<open>the \<open>if\<close> chain of the loop body, on the doubles of the two literals\<close>
  "classify_percentage percentage =
     (if js_le percentage (fl64 0.8) then A
      else if js_le percentage (fl64 0.95) then B
      else C)"

fun classify_loop :: "item_store \<Rightarrow> real \<Rightarrow> real \<Rightarrow> addr list \<Rightarrow> item_store" where
  \<comment> \<open>the \<open>for\<close> loop: \<open>cumulative\<close> is the running sum before the item\<close>
  "classify_loop h totalValue cumulative [] = h"
| "classify_loop h totalValue cumulative (a # rest) =
     (let cumulative' = fl64 (cumulative + annualValue (h a));
          percentage = js_div cumulative' totalValue
      in classify_loop (h(a := (h a)\<lparr>item_class := Some (classify_percentage percentage)\<rparr>))
           totalValue cumulative' rest)"

definition classifyABC :: "item_store \<Rightarrow> addr list \<Rightarrow> item_store \<times> addr list" where
  \<comment> \<open>\<open>Array.prototype.sort\<close> is stable; descending by value is ascending by its negation\<close>
  "classifyABC h items =
     (let sorted = sort_key (\<lambda>a. - annualValue (h a)) items;
          totalValue = foldl (\<lambda>sum a. fl64 (sum + annualValue (h a))) 0 sorted
      in (classify_loop h totalValue 0 sorted, sorted))"

definition count_class :: "abc_class \<Rightarrow> item_store \<Rightarrow> addr list \<Rightarrow> nat" where
  \<comment> \<open>\<open>classified.filter(p => p.class === c).length\<close>, as the tests count\<close>
  "count_class c h items = length (filter (\<lambda>a. item_class (h a) = Some c) items)"

text \<open>
  Two functions for the proofs: the classes that the loop computes from the values alone,
  and a sequence of class writes applied to a store.
\<close>

fun class_writes :: "real \<Rightarrow> real \<Rightarrow> real list \<Rightarrow> abc_class list" where
  "class_writes totalValue cumulative [] = []"
| "class_writes totalValue cumulative (v # vs) =
     (let cumulative' = fl64 (cumulative + v)
      in classify_percentage (js_div cumulative' totalValue)
           # class_writes totalValue cumulative' vs)"

fun write_classes :: "item_store \<Rightarrow> (addr \<times> abc_class) list \<Rightarrow> item_store" where
  "write_classes h [] = h"
| "write_classes h ((a, c) # ws) = write_classes (h(a := (h a)\<lparr>item_class := Some c\<rparr>)) ws"

definition test_store :: item_store where
  \<comment> \<open>the items of the ABC test in tests/forecast.test.js, at the addresses 0 to 4\<close>
  "test_store =
     (\<lambda>a. \<lparr>item_id = ''5'', annualValue = 1000, item_class = None\<rparr>)
       (0 := \<lparr>item_id = ''4'', annualValue = 5000, item_class = None\<rparr>,
        1 := \<lparr>item_id = ''1'', annualValue = 50000, item_class = None\<rparr>,
        2 := \<lparr>item_id = ''3'', annualValue = 15000, item_class = None\<rparr>,
        3 := \<lparr>item_id = ''2'', annualValue = 30000, item_class = None\<rparr>)"

definition worthless_store :: item_store where
  "worthless_store = (\<lambda>a. \<lparr>item_id = ''1'', annualValue = 0, item_class = None\<rparr>)"

definition unit_store :: item_store where
  "unit_store = (\<lambda>a. \<lparr>item_id = ''1'', annualValue = 1, item_class = None\<rparr>)"

definition boundary_store :: item_store where
  \<comment> \<open>items with the values 1.6, 0.3 and 0.1 at the addresses 0 to 2\<close>
  "boundary_store =
     (\<lambda>a. \<lparr>item_id = ''3'', annualValue = fl64 0.1, item_class = None\<rparr>)
       (0 := \<lparr>item_id = ''1'', annualValue = fl64 1.6, item_class = None\<rparr>,
        1 := \<lparr>item_id = ''2'', annualValue = fl64 0.3, item_class = None\<rparr>)"

section \<open>server/seasonality-utils.js\<close>

text \<open>
  A sales row as \<open>detectSeasonality\<close> reads it: the date field as the time value of
  \<open>new Date(...)\<close>, and the value field as \<open>parseFloat\<close> returns it, \<open>None\<close> standing
  for NaN (a missing or non-numeric value), which \<open>|| 0\<close> turns into 0.
\<close>

record sale =
  sale_date :: int
  sale_value :: "real option"

datatype pattern = Weekly | Monthly

text \<open>
  The result object. \<open>reason\<close> is only set, and \<open>pattern\<close> and \<open>strength\<close> are only
  absent, in the result for a series that is too short. The fields \<open>dayOfWeekPattern\<close> and
  \<open>recommendation\<close>, which are computed from \<open>pattern\<close> and \<open>strength\<close> afterwards, are
  not part of the model.
\<close>

record seasonality_result =
  detected :: bool
  reason :: "string option"
  pattern :: "pattern option"
  strength :: "real option"

definition checkPeriodicity :: "real list \<Rightarrow> nat \<Rightarrow> real" where
  "checkPeriodicity values lag =
     (if length values \<le> lag then 0
      else
        let mean = foldl (\<lambda>a b. a + b) 0 values / real (length values);
            numerator =
              foldl (\<lambda>numerator i. numerator + (values ! i - mean) * (values ! (i + lag) - mean))
                0 [0 ..< length values - lag];
            denominator =
              foldl (\<lambda>denominator i. denominator + (values ! i - mean)\<^sup>2)
                0 [0 ..< length values]
        in if denominator = 0 then 0 else \<bar>numerator / denominator\<bar>)"

definition series_values :: "sale list \<Rightarrow> real list" where
  \<comment> \<open>the chronological sort and the extraction of the values\<close>
  "series_values data =
     map (\<lambda>d. case sale_value d of Some v \<Rightarrow> v | None \<Rightarrow> 0) (sort_key sale_date data)"

definition detectSeasonality :: "sale list \<Rightarrow> seasonality_result" where
  "detectSeasonality data =
     (if length data < 30
      then \<lparr> detected = False,
             reason = Some ''Insufficient data (need at least 30 points)'',
             pattern = None, strength = None \<rparr>
      else
        let values = series_values data;
            weeklyStrength = checkPeriodicity values 7;
            monthlyStrength = checkPeriodicity values 30;
            (pattern, strength) =
              (if weeklyStrength > 0.3 then (Some Weekly, weeklyStrength)
               else if monthlyStrength > 0.2 then (Some Monthly, monthlyStrength)
               else (None, 0))
        in \<lparr> detected = (pattern \<noteq> None), reason = None,
             pattern = pattern, strength = Some (round2 strength) \<rparr>)"

definition flat_series :: "nat \<Rightarrow> sale list" where
  \<comment> \<open>\<open>n\<close> consecutive days, every one with the value 10\<close>
  "flat_series n = map (\<lambda>i. \<lparr>sale_date = int i, sale_value = Some 10\<rparr>) [0 ..< n]"

definition monthly_series :: "sale list" where
  \<comment> \<open>31 consecutive days: 2 on the first, 0 on the last, 1 on the days between\<close>
  "monthly_series =
     map (\<lambda>i. \<lparr>sale_date = int i,
               sale_value = Some (if i = 0 then 2 else if i = 30 then 0 else 1)\<rparr>) [0 ..< 31]"

section \<open>routes/api/scenarios.js\<close>

subsection \<open>The perturbed forecast of the demand shock and promotion routes\<close>

definition shocked :: "real \<Rightarrow> point \<Rightarrow> point" where
  \<comment> \<open>the object literal of the demand shock route: a copy of \<open>item\<close> with four fields set\<close>
  "shocked multiplier item =
     item\<lparr> predicted := predicted item * multiplier,
           upper_bound := upper_bound item * multiplier,
           lower_bound := lower_bound item * multiplier,
           scenario_impact := Some multiplier \<rparr>"

definition promoted :: "real \<Rightarrow> point \<Rightarrow> point" where
  \<comment> \<open>the object literal of the promotion route\<close>
  "promoted lift item =
     item\<lparr> predicted := predicted item * lift,
           upper_bound := upper_bound item * lift,
           lower_bound := lower_bound item * lift,
           promotion_lift := Some lift \<rparr>"

definition impactedForecast :: "point list \<Rightarrow> real \<Rightarrow> real \<Rightarrow> point list" where
  "impactedForecast forecast multiplier duration =
     map (\<lambda>(item, index). if real index < duration then shocked multiplier item else item)
       (zip forecast [0 ..< length forecast])"

definition promotionImpact :: "point list \<Rightarrow> real \<Rightarrow> real \<Rightarrow> point list" where
  "promotionImpact forecast lift duration =
     map (\<lambda>(item, index). if real index < duration then promoted lift item else item)
       (zip forecast [0 ..< length forecast])"

text \<open>
  The request body of both routes holds \<open>baseForecast\<close>, an object whose \<open>forecast\<close> field
  is the sequence, and the two parameters, each with a default for a missing field. The
  routes answer 400 without a base forecast; reading \<open>forecast.map\<close> of a base forecast
  without that field throws. Of the response only the perturbed forecast is modelled.
\<close>

record base_forecast =
  forecast :: "point list option"

datatype route_error = BadRequest | TypeError

definition demand_shock_route ::
  "base_forecast option \<Rightarrow> real option \<Rightarrow> real option \<Rightarrow> route_error + point list" where
  "demand_shock_route baseForecast multiplier duration =
     (case baseForecast of
        None \<Rightarrow> Inl BadRequest
      | Some b \<Rightarrow>
          (case forecast b of
             None \<Rightarrow> Inl TypeError
           | Some fc \<Rightarrow>
               Inr (impactedForecast fc
                      (case multiplier of None \<Rightarrow> 1.5 | Some m \<Rightarrow> m)
                      (case duration of None \<Rightarrow> 7 | Some d \<Rightarrow> d))))"

definition promotion_route ::
  "base_forecast option \<Rightarrow> real option \<Rightarrow> real option \<Rightarrow> route_error + point list" where
  "promotion_route baseForecast lift duration =
     (case baseForecast of
        None \<Rightarrow> Inl BadRequest
      | Some b \<Rightarrow>
          (case forecast b of
             None \<Rightarrow> Inl TypeError
           | Some fc \<Rightarrow>
               Inr (promotionImpact fc
                      (case lift of None \<Rightarrow> 2.0 | Some l \<Rightarrow> l)
                      (case duration of None \<Rightarrow> 3 | Some d \<Rightarrow> d))))"

definition flat_forecast :: "point list" where
  \<comment> \<open>a 30-point flat forecast with \<open>predicted = 100\<close>\<close>
  "flat_forecast =
     replicate 30 \<lparr> date = ''2024-01-01'', predicted = 100, upper_bound = 120,
                    lower_bound = 80, scenario_impact = None, promotion_lift = None \<rparr>"

subsection \<open>The same routes on a store of objects\<close>

text \<open>
  To say what the routes do to the objects they are given, the forecast is placed in a
  store: an address is an index into the list of allocated cells, a forecast array is a
  cell holding the addresses of its points. An object literal and \<open>Array.prototype.map\<close>
  allocate a new cell at the end of the store; the callback's \<open>return item\<close> returns the
  address it was given. A read of an address that is not allocated, or of a cell of the
  wrong kind, cannot happen in JavaScript and ends the model's run with \<open>None\<close>.
\<close>

datatype cell = PointObj point | ArrayObj "addr list"

type_synonym store = "cell list"

definition lookup :: "store \<Rightarrow> addr \<Rightarrow> cell option" where
  "lookup h a = (if a < length h then Some (h ! a) else None)"

definition alloc :: "store \<Rightarrow> cell \<Rightarrow> store \<times> addr" where
  "alloc h c = (h @ [c], length h)"

fun map_first :: "(point \<Rightarrow> point) \<Rightarrow> real \<Rightarrow> store \<Rightarrow> addr list \<Rightarrow> nat \<Rightarrow> (store \<times> addr list) option" where
  \<comment> \<open>\<open>map\<close> with the callback of the two routes, from \<open>index\<close> on; \<open>fresh\<close> builds the object literal\<close>
  "map_first fresh duration h [] index = Some (h, [])"
| "map_first fresh duration h (a # as) index =
     (case lookup h a of
        Some (PointObj item) \<Rightarrow>
          if real index < duration
          then (let (h1, a') = alloc h (PointObj (fresh item))
                in case map_first fresh duration h1 as (Suc index) of
                     Some (h2, out) \<Rightarrow> Some (h2, a' # out)
                   | None \<Rightarrow> None)
          else (case map_first fresh duration h as (Suc index) of
                  Some (h2, out) \<Rightarrow> Some (h2, a # out)
                | None \<Rightarrow> None)
      | _ \<Rightarrow> None)"

definition map_store :: "(point \<Rightarrow> point) \<Rightarrow> real \<Rightarrow> store \<Rightarrow> addr \<Rightarrow> (store \<times> addr) option" where
  \<comment> \<open>\<open>baseForecast.forecast.map(...)\<close>: the result array is a new cell\<close>
  "map_store fresh duration h arr =
     (case lookup h arr of
        Some (ArrayObj refs) \<Rightarrow>
          (case map_first fresh duration h refs 0 of
             Some (h', out) \<Rightarrow> Some (alloc h' (ArrayObj out))
           | None \<Rightarrow> None)
      | _ \<Rightarrow> None)"

definition impactedForecast_store :: "store \<Rightarrow> addr \<Rightarrow> real \<Rightarrow> real \<Rightarrow> (store \<times> addr) option" where
  "impactedForecast_store h arr multiplier duration = map_store (shocked multiplier) duration h arr"

definition promotionImpact_store :: "store \<Rightarrow> addr \<Rightarrow> real \<Rightarrow> real \<Rightarrow> (store \<times> addr) option" where
  "promotionImpact_store h arr lift duration = map_store (promoted lift) duration h arr"

definition read_point :: "store \<Rightarrow> addr \<Rightarrow> point option" where
  "read_point h a = (case lookup h a of Some (PointObj p) \<Rightarrow> Some p | _ \<Rightarrow> None)"

definition read_points :: "store \<Rightarrow> addr \<Rightarrow> point list option" where
  \<comment> \<open>the sequence of points that an array holds in a store\<close>
  "read_points h arr =
     (case lookup h arr of
        Some (ArrayObj refs) \<Rightarrow> those (map (read_point h) refs)
      | _ \<Rightarrow> None)"

definition three_points :: "point list" where
  "three_points =
     [\<lparr> date = ''2024-01-01'', predicted = 100, upper_bound = 120,
        lower_bound = 80, scenario_impact = None, promotion_lift = None \<rparr>,
      \<lparr> date = ''2024-01-02'', predicted = 100, upper_bound = 120,
        lower_bound = 80, scenario_impact = None, promotion_lift = None \<rparr>,
      \<lparr> date = ''2024-01-03'', predicted = 100, upper_bound = 120,
        lower_bound = 80, scenario_impact = None, promotion_lift = None \<rparr>]"

definition flat_store :: store where
  \<comment> \<open>a three-point forecast: the points at addresses 0 to 2, the array at address 3\<close>
  "flat_store = map PointObj three_points @ [ArrayObj [0, 1, 2]]"

subsection \<open>Numerical impact of a scenario\<close>

text \<open>
  A scenario is an object with a \<open>type\<close> and \<open>parameters\<close>, an object of named numbers;
  \<open>parameters\<close> is \<open>None\<close> when the scenario has no such field, and reading a parameter
  of it then throws.
\<close>

record scenario =
  scenario_type :: string
  parameters :: "(string \<rightharpoonup> real) option"

datatype severity = High | Medium | Low

record impact =
  totalDemandImpact :: real
  percentageChange :: real
  productsAffected :: nat
  severity :: severity

definition impactMultiplier :: "scenario \<Rightarrow> route_error + real" where
  \<comment> \<open>\<open>scenario.parameters.multiplier || d\<close>: the default replaces a missing or zero multiplier\<close>
  "impactMultiplier sc =
     (if scenario_type sc = ''demand_shock'' then
        (case parameters sc of
           None \<Rightarrow> Inl TypeError
         | Some ps \<Rightarrow>
             Inr (case ps ''multiplier'' of None \<Rightarrow> 1.5 | Some m \<Rightarrow> if m = 0 then 1.5 else m))
      else if scenario_type sc = ''promotion'' then
        (case parameters sc of
           None \<Rightarrow> Inl TypeError
         | Some ps \<Rightarrow>
             Inr (case ps ''multiplier'' of None \<Rightarrow> 2 | Some m \<Rightarrow> if m = 0 then 2 else m))
      else Inr 1)"

definition calculateScenarioImpact ::
  "base_forecast \<Rightarrow> scenario \<Rightarrow> 'p list option \<Rightarrow> route_error + impact" where
  "calculateScenarioImpact baseForecast sc products =
     (let totalDemand =
            (case forecast baseForecast of
               None \<Rightarrow> 0
             | Some fc \<Rightarrow> foldl (\<lambda>sum f. sum + predicted f) 0 fc)
      in case impactMultiplier sc of
           Inl e \<Rightarrow> Inl e
         | Inr m \<Rightarrow>
             Inr \<lparr> totalDemandImpact = js_round (totalDemand * (m - 1)),
                   percentageChange = js_round ((m - 1) * 100),
                   productsAffected = (case products of None \<Rightarrow> 0 | Some ps \<Rightarrow> length ps),
                   severity = (if m > 1.5 then High else if m > 1.2 then Medium else Low) \<rparr>)"

section \<open>Fill rate\<close>

text \<open>
  C8. \<open>calculateFillRate\<close> returns \<open>unitsShipped / unitsOrdered\<close> when \<open>unitsOrdered\<close> is
  not zero and, by convention, 1 when it is zero; \<open>fillRate(950, 1000) = 0.95\<close> and
  \<open>fillRate(0, 0) = 1\<close>.
\<close>

theorem calculateFillRate_spec:
  "(unitsOrdered \<noteq> 0 \<longrightarrow> calculateFillRate unitsShipped unitsOrdered = unitsShipped / unitsOrdered)
   \<and> calculateFillRate unitsShipped 0 = 1
   \<and> calculateFillRate 950 1000 = 0.95
   \<and> calculateFillRate 0 0 = 1"
  by (simp add: calculateFillRate_def)

theorem calculateFillRate_spec_witness:
  "(1000::real) \<noteq> 0 \<and> calculateFillRate 950 1000 = 950 / 1000
   \<and> calculateFillRate 950 0 = 1"
  using calculateFillRate_spec [of 1000 950] by simp

section \<open>Stockout probability\<close>

text \<open>
  C4. \<open>calculateStockoutProbability\<close> returns a value in the interval from 0 to 1; it
  returns 0 when \<open>demandStdDev\<close> is 0, and otherwise \<open>exp (-0.717 z - 0.416 z\<^sup>2)\<close> with
  \<open>z = safetyStock / demandStdDev\<close>, clamped to that interval. For non-negative inputs the
  exponent is not positive, so the clamp leaves the value as it is.
\<close>

theorem calculateStockoutProbability_spec:
  assumes "0 \<le> averageDemand" and "0 \<le> safetyStock" and "0 \<le> demandStdDev"
  shows "0 \<le> calculateStockoutProbability averageDemand safetyStock demandStdDev
    \<and> calculateStockoutProbability averageDemand safetyStock demandStdDev \<le> 1
    \<and> (demandStdDev = 0 \<longrightarrow>
          calculateStockoutProbability averageDemand safetyStock demandStdDev = 0)
    \<and> (demandStdDev \<noteq> 0 \<longrightarrow>
          calculateStockoutProbability averageDemand safetyStock demandStdDev =
            min 1 (max 0 (exp (- 0.717 * (safetyStock / demandStdDev)
                               - 0.416 * (safetyStock / demandStdDev)\<^sup>2)))
          \<and> calculateStockoutProbability averageDemand safetyStock demandStdDev =
            exp (- 0.717 * (safetyStock / demandStdDev)
                 - 0.416 * (safetyStock / demandStdDev)\<^sup>2))"
proof -
  let ?z = "safetyStock / demandStdDev"
  let ?e = "- 0.717 * ?z - 0.416 * ?z\<^sup>2"
  have z: "0 \<le> ?z" using assms by simp
  have "0.717 * ?z \<ge> 0" using z by simp
  moreover have "0.416 * ?z\<^sup>2 \<ge> 0" by simp
  ultimately have "?e \<le> 0" by linarith
  then have le1: "exp ?e \<le> 1" by simp
  have ge0: "0 \<le> exp ?e" by simp
  have clamp: "min 1 (max 0 (exp ?e)) = exp ?e" using le1 ge0 by simp
  show ?thesis
    using clamp le1 ge0
    by (simp add: calculateStockoutProbability_def Let_def power2_eq_square)
qed

theorem calculateStockoutProbability_spec_witness:
  "(0::real) \<le> 10 \<and> (0::real) \<le> 5
   \<and> 0 \<le> calculateStockoutProbability 10 10 5
   \<and> calculateStockoutProbability 10 10 5 \<le> 1
   \<and> calculateStockoutProbability 10 10 5 = exp (- 3.098)
   \<and> calculateStockoutProbability 10 10 0 = 0"
proof -
  have a: "calculateStockoutProbability 10 10 5 = exp (- 3.098)"
    using calculateStockoutProbability_spec [of 10 10 5] by (simp add: power2_eq_square)
  have b: "calculateStockoutProbability 10 10 0 = 0"
    using calculateStockoutProbability_spec [of 10 10 0] by simp
  show ?thesis using a b by simp
qed

section \<open>Rounding to a double\<close>

lemma rne_bounds: "\<lfloor>x\<rfloor> \<le> rne x \<and> rne x \<le> \<lfloor>x\<rfloor> + 1"
  by (simp add: rne_def Let_def)

lemma rne_of_int [simp]: "rne (of_int n) = n"
  by (simp add: rne_def)

lemma rne_ge: "of_int n \<le> x \<Longrightarrow> n \<le> rne x"
  using rne_bounds [of x] by (meson le_floor_iff order_trans)

lemma exponent_ge1:
  assumes "1 \<le> x"
  shows "2 powi (exponent x) \<le> x \<and> x < 2 powi (exponent x + 1)"
proof -
  let ?n = "\<lfloor>x\<rfloor>"
  have n: "0 < ?n" using assms by simp
  from bitlen_bounds [OF n]
  have lo: "2 ^ nat (bitlen ?n - 1) \<le> ?n" and hi: "?n < 2 ^ nat (bitlen ?n)" by auto
  have b1: "1 \<le> bitlen ?n" using n by (auto simp: bitlen_alt_def)
  have e: "exponent x = bitlen ?n - 1" using assms by (simp add: exponent_def)
  have "(2::real) powi (bitlen ?n - 1) = 2 ^ nat (bitlen ?n - 1)"
    using b1 by (simp add: power_int_def)
  also have "\<dots> = of_int (2 ^ nat (bitlen ?n - 1))" by simp
  also have "\<dots> \<le> of_int ?n" using lo by (simp only: of_int_le_iff)
  also have "\<dots> \<le> x" by simp
  finally have L: "2 powi (exponent x) \<le> x" unfolding e .
  have "?n + 1 \<le> 2 ^ nat (bitlen ?n)" using hi by simp
  then have "(of_int (?n + 1) :: real) \<le> of_int (2 ^ nat (bitlen ?n))"
    by (simp only: of_int_le_iff)
  moreover have "x < of_int (?n + 1)" by linarith
  ultimately have "x < of_int (2 ^ nat (bitlen ?n))" by linarith
  also have "\<dots> = 2 powi (bitlen ?n)" using b1 by (simp add: power_int_def)
  finally have U: "x < 2 powi (exponent x + 1)" unfolding e by simp
  show ?thesis using L U by simp
qed

lemma exponent_lt1:
  assumes "0 < x" and "x < 1"
  shows "2 powi (exponent x) \<le> x \<and> x < 2 powi (exponent x + 1)"
proof -
  let ?c = "\<lceil>1 / x\<rceil> - 1"
  let ?k = "bitlen ?c"
  have inv: "1 < 1 / x" using assms by simp
  then have c: "0 < ?c" by linarith
  from bitlen_bounds [OF c]
  have lo: "2 ^ nat (?k - 1) \<le> ?c" and hi: "?c < 2 ^ nat ?k" by auto
  have k1: "1 \<le> ?k" using c by (auto simp: bitlen_alt_def)
  have e: "exponent x = - ?k" using assms by (simp add: exponent_def)
  have "\<lceil>1 / x\<rceil> \<le> 2 ^ nat ?k" using hi by simp
  then have "(of_int \<lceil>1 / x\<rceil> :: real) \<le> of_int (2 ^ nat ?k)" by (simp only: of_int_le_iff)
  then have "1 / x \<le> 2 ^ nat ?k" by (simp add: ceiling_le_iff)
  then have "1 \<le> 2 ^ nat ?k * x" using assms by (simp add: field_simps)
  then have "1 / 2 ^ nat ?k \<le> x" by (simp add: field_simps)
  moreover have "(2::real) powi (- ?k) = 1 / 2 ^ nat ?k"
    using k1 by (simp add: power_int_def field_simps)
  ultimately have L: "2 powi (exponent x) \<le> x" unfolding e by simp
  have "(of_int (2 ^ nat (?k - 1)) :: real) \<le> of_int ?c" using lo by (simp only: of_int_le_iff)
  moreover have "of_int ?c < 1 / x" by linarith
  ultimately have "2 ^ nat (?k - 1) < 1 / x" by simp
  then have "2 ^ nat (?k - 1) * x < 1" using assms by (simp add: field_simps)
  then have "x < 1 / 2 ^ nat (?k - 1)" by (simp add: field_simps)
  moreover have "(2::real) powi (- ?k + 1) = 1 / 2 ^ nat (?k - 1)"
    using k1 by (simp add: power_int_def field_simps)
  ultimately have U: "x < 2 powi (exponent x + 1)" unfolding e by simp
  show ?thesis using L U by simp
qed

lemma exponent_bounds:
  "0 < x \<Longrightarrow> 2 powi (exponent x) \<le> x \<and> x < 2 powi (exponent x + 1)"
  using exponent_ge1 [of x] exponent_lt1 [of x] by (cases "1 \<le> x") auto

lemma exponent_unique:
  assumes "0 < x" and "2 powi e \<le> x" and "x < 2 powi (e + 1)"
  shows "exponent x = e"
proof -
  from exponent_bounds [OF assms(1)]
  have lo: "2 powi (exponent x) \<le> x" and hi: "x < 2 powi (exponent x + 1)" by auto
  have lt: "m < n" if "(2::real) powi m < 2 powi n" for m n :: int
  proof (rule ccontr)
    assume "\<not> m < n"
    then have "n \<le> m" by simp
    then have "(2::real) powi n \<le> 2 powi m" by (rule power_int_increasing) simp
    with that show False by simp
  qed
  have "(2::real) powi e < 2 powi (exponent x + 1)" using assms(2) hi by linarith
  then have a: "e < exponent x + 1" by (rule lt)
  have "(2::real) powi (exponent x) < 2 powi (e + 1)" using lo assms(3) by linarith
  then have b: "exponent x < e + 1" by (rule lt)
  show ?thesis using a b by simp
qed

lemma fl64_zero [simp]: "fl64 0 = 0"
  by (simp add: fl64_def)

lemma mantissa_ge:
  assumes "0 < x"
  shows "2 ^ 52 \<le> x / 2 powi (exponent x - 52)"
proof -
  let ?u = "(2::real) powi (exponent x - 52)"
  have u: "0 < ?u" by simp
  from exponent_bounds [OF assms] have "2 powi (exponent x) \<le> x" by simp
  moreover have "(2::real) powi (exponent x) = 2 ^ 52 * ?u"
    by (simp add: power_int_diff)
  ultimately have "2 ^ 52 * ?u \<le> x" by simp
  then show ?thesis using u by (simp only: pos_le_divide_eq)
qed

lemma rne_mantissa_pos:
  assumes "0 < x"
  shows "0 < rne (x / 2 powi (exponent x - 52))"
proof -
  have "(1::real) \<le> 2 ^ 52" by simp
  from this mantissa_ge [OF assms] have "1 \<le> x / 2 powi (exponent x - 52)"
    by (rule order_trans)
  then have "(of_int 1 :: real) \<le> x / 2 powi (exponent x - 52)"
    by (simp only: of_int_1)
  then have "1 \<le> rne (x / 2 powi (exponent x - 52))" by (rule rne_ge)
  then show ?thesis by simp
qed

lemma fl64_pos: "0 < x \<Longrightarrow> 0 < fl64 x"
  using rne_mantissa_pos [of x] by (simp add: fl64_def Let_def)

lemma fl64_neg: "x < 0 \<Longrightarrow> fl64 x < 0"
  using rne_mantissa_pos [of "- x"] by (simp add: fl64_def Let_def mult_neg_pos)

lemma fl64_nonneg: "0 \<le> x \<Longrightarrow> 0 \<le> fl64 x"
  using fl64_pos [of x] by (cases "x = 0") auto

lemma fl64_neg_iff: "fl64 x < 0 \<longleftrightarrow> x < 0"
  using fl64_neg [of x] fl64_nonneg [of x] by (cases "x < 0") auto

lemma fl64_minus: "fl64 (- x) = - fl64 x"
  by (simp add: fl64_def Let_def)

lemma fl64_scale_pos:
  assumes "0 < x"
  shows "fl64 (x * 2 powi k) = fl64 x * 2 powi k"
proof -
  have p: "0 < x * 2 powi k" using assms by simp
  from exponent_bounds [OF assms]
  have lo: "2 powi (exponent x) \<le> x" and hi: "x < 2 powi (exponent x + 1)" by auto
  have "2 powi (exponent x + k) \<le> x * 2 powi k"
    using lo by (simp add: power_int_add)
  moreover have "x * 2 powi k < 2 powi (exponent x + k + 1)"
    using hi by (simp add: power_int_add)
  ultimately have e: "exponent (x * 2 powi k) = exponent x + k"
    using p by (intro exponent_unique) auto
  have u: "(2::real) powi (exponent x + k - 52) = 2 powi (exponent x - 52) * 2 powi k"
    by (simp add: power_int_add power_int_diff)
  have m: "x * 2 powi k / (2 powi (exponent x - 52) * 2 powi k) = x / 2 powi (exponent x - 52)"
    by simp
  show ?thesis
    using assms p by (simp add: fl64_def Let_def e u m)
qed

lemma fl64_scale: "fl64 (x * 2 powi k) = fl64 x * 2 powi k"
proof (cases "x = 0")
  case True
  then show ?thesis by simp
next
  case False
  show ?thesis
  proof (cases "0 < x")
    case True
    then show ?thesis by (rule fl64_scale_pos)
  next
    case False
    with \<open>x \<noteq> 0\<close> have "0 < - x" by simp
    from fl64_scale_pos [OF this, of k] show ?thesis by (simp add: fl64_minus)
  qed
qed

lemma double_half: "double x \<Longrightarrow> fl64 (x * 0.5) = x * 0.5"
  using fl64_scale [of x "-1"] by (simp add: double_def)

lemma double_quarter: "double x \<Longrightarrow> fl64 (x * 0.25) = x * 0.25"
  using fl64_scale [of x "-2"] by (simp add: double_def power_int_minus)

lemma rne_eqI:
  assumes "of_int n - 1 / 2 < x" and "x < of_int n + 1 / 2"
  shows "rne x = n"
proof (cases "of_int n \<le> x")
  case True
  then have "\<lfloor>x\<rfloor> = n" using assms(2) by linarith
  then show ?thesis using assms(2) by (simp add: rne_def Let_def)
next
  case False
  then have f: "\<lfloor>x\<rfloor> = n - 1" using assms(1) by linarith
  have "1 / 2 < x - of_int (n - 1)" using assms(1) by simp
  then show ?thesis using f by (simp add: rne_def Let_def)
qed

lemma fl64_eqI:
  assumes "0 < x" and "2 powi e \<le> x" and "x < 2 powi (e + 1)"
    and "of_int n - 1 / 2 < x / 2 powi (e - 52)" and "x / 2 powi (e - 52) < of_int n + 1 / 2"
  shows "fl64 x = of_int n * 2 powi (e - 52)"
proof -
  have e: "exponent x = e" using assms(1-3) by (rule exponent_unique)
  have "rne (x / 2 powi (e - 52)) = n" using assms(4,5) by (rule rne_eqI)
  then show ?thesis using assms(1) by (simp add: fl64_def Let_def e)
qed

text \<open>
  The difference of two doubles has the sign of the exact difference, so the comparator
  \<open>(a, b) => b.value - a.value\<close> orders by value, descending.
\<close>

lemma fl64_eq_0_iff: "fl64 x = 0 \<longleftrightarrow> x = 0"
  using fl64_pos [of x] fl64_neg [of x] by (cases "x = 0"; cases "0 < x"; force)

lemma comparator_sign:
  "(fl64 (b - a) < 0) = (b < a) \<and> (fl64 (b - a) = 0) = (b = a) \<and> (0 < fl64 (b - a)) = (a < b)"
  using fl64_neg_iff [of "b - a"] fl64_eq_0_iff [of "b - a"] fl64_pos [of "b - a"]
    fl64_nonneg [of "b - a"] fl64_neg [of "b - a"]
  by (cases "a < b"; cases "a = b"; force)

section \<open>Rounding to units and hundredths\<close>

lemma js_round_mono: "x \<le> y \<Longrightarrow> js_round x \<le> js_round y"
  by (simp add: js_round_def floor_mono)

lemma js_round_of_int: "js_round (of_int n) = of_int n"
  unfolding js_round_def by (simp add: floor_unique)

lemma js_round_Ints: "x \<in> \<int> \<Longrightarrow> js_round x = x"
  by (auto simp: Ints_def js_round_of_int)

lemma foldl_fl64_map:
  "foldl (\<lambda>sum a. fl64 (sum + f a)) c xs = foldl (\<lambda>sum v. fl64 (sum + v)) c (map f xs)"
  by (induction xs arbitrary: c) simp_all

lemma fsum_map: "foldl (\<lambda>sum a. fl64 (sum + f a)) 0 xs = fsum (map f xs)"
  unfolding fsum_def by (rule foldl_fl64_map)

lemma sqrt_64th: "sqrt (1 / 64) = 1 / 8"
  by (rule real_sqrt_unique) (simp_all add: power2_eq_square)

lemma js_round2_hundredths: "\<exists>n::int. js_round2 x = fl64 (of_int n / 100)"
  unfolding js_round2_def js_round_def by blast

section \<open>Economic order quantity and safety stock\<close>

text \<open>
  C5, as the specification states it: no formula rounds its return value, so that
  \<open>calculateEOQ\<close> returns exactly \<open>sqrt (2 D S / H)\<close> and \<open>calculateSafetyStock\<close> exactly
  \<open>z \<sigma> sqrt L\<close>. Both functions end with \<open>Math.round(x * 100) / 100\<close>: for an annual
  demand of 1, an ordering cost of 1 and a holding cost of 128 the square root is 0.125
  and \<open>calculateEOQ\<close> returns 0.13.
\<close>

theorem calculateEOQ_unrounded_counterexample:
  "calculateEOQ 1 1 128 = Some (Num (fl64 0.13))
   \<and> sqrt ((2 * 1 * 1) / 128) = 0.125
   \<and> calculateEOQ 1 1 128 \<noteq> Some (Num (sqrt ((2 * 1 * 1) / 128)))"
proof -
  have q: "fl64 (fl64 (fl64 (2 * 1) * 1) / 128) = 1 / 64" by code_simp
  have s: "sqrt ((2 * 1 * 1) / 128) = 1 / 8" using sqrt_64th by simp
  have r: "js_round2 (fl64 (1 / 8)) = fl64 0.13" by code_simp
  have ne: "fl64 0.13 \<noteq> 1 / 8" by code_simp
  have e: "calculateEOQ 1 1 128 = Some (Num (fl64 0.13))"
    unfolding calculateEOQ_def Let_def q using r by (simp add: sqrt_64th)
  show ?thesis unfolding e s using ne by simp
qed

text \<open>
  C5, amended. \<open>calculateEOQ\<close> and \<open>calculateSafetyStock\<close> round their return value to
  two decimals themselves. For non-zero arguments with a non-negative quotient,
  \<open>calculateEOQ\<close> returns \<open>Math.round(x * 100) / 100\<close> for the square root \<open>x\<close> of
  \<open>2 D S / H\<close>, and for a non-negative lead time \<open>calculateSafetyStock\<close> returns the same
  rounding of \<open>z \<sigma> sqrt L\<close>, with \<open>z\<close> from the table and 1.65 for a level that is not in
  it, every operation being the operation on doubles; each result is the double nearest
  to a whole number of hundredths. The reorder point that \<open>calculateHealthMetrics\<close>
  chains to the safety stock is computed from the rounded safety stock, whatever the lead
  time of the product. The reorder point, turnover and days-of-inventory formulas return
  their sum, quotient and product without such a rounding: the turnover of 1 over 8 is
  0.125.
\<close>

theorem inventory_formulas_round:
  assumes "annualDemand \<noteq> 0" and "orderingCost \<noteq> 0" and "holdingCost \<noteq> 0"
    and "0 \<le> fl64 (fl64 (fl64 (2 * annualDemand) * orderingCost) / holdingCost)"
    and "0 \<le> leadTimeDays"
  shows "calculateEOQ annualDemand orderingCost holdingCost
           = Some (Num (js_round2 (fl64 (sqrt
               (fl64 (fl64 (fl64 (2 * annualDemand) * orderingCost) / holdingCost))))))
    \<and> (\<exists>n::int. calculateEOQ annualDemand orderingCost holdingCost
           = Some (Num (fl64 (of_int n / 100))))
    \<and> calculateSafetyStock averageDailyDemand leadTimeDays serviceLevel demandStdDev
           = Num (js_round2 (fl64 (fl64
               ((case zScores serviceLevel of Some v \<Rightarrow> v | None \<Rightarrow> fl64 1.65) * demandStdDev)
               * fl64 (sqrt leadTimeDays))))
    \<and> (\<exists>n::int. calculateSafetyStock averageDailyDemand leadTimeDays serviceLevel demandStdDev
           = Num (fl64 (of_int n / 100)))
    \<and> healthMetrics_reorderPoint None averageDailyDemand demandStdDev
           = Num (fl64 (fl64 (averageDailyDemand * 7)
                  + js_round2 (fl64 (fl64 (fl64 1.65 * demandStdDev) * fl64 (sqrt 7)))))
    \<and> (leadTimeDays \<noteq> 0 \<longrightarrow>
         healthMetrics_reorderPoint (Some leadTimeDays) averageDailyDemand demandStdDev
           = Num (fl64 (fl64 (averageDailyDemand * leadTimeDays)
                  + js_round2 (fl64 (fl64 (fl64 1.65 * demandStdDev) * fl64 (sqrt leadTimeDays))))))
    \<and> healthMetrics_reorderPoint (Some 0) averageDailyDemand demandStdDev
           = healthMetrics_reorderPoint None averageDailyDemand demandStdDev
    \<and> calculateReorderPoint averageDailyDemand leadTimeDays demandStdDev
           = fl64 (fl64 (averageDailyDemand * leadTimeDays) + demandStdDev)
    \<and> calculateTurnover annualDemand holdingCost = fl64 (annualDemand / holdingCost)
    \<and> calculateDIO annualDemand holdingCost leadTimeDays
           = fl64 (fl64 (annualDemand / holdingCost) * leadTimeDays)
    \<and> calculateTurnover 1 8 = 0.125"
proof -
  let ?q = "fl64 (fl64 (fl64 (2 * annualDemand) * orderingCost) / holdingCost)"
  let ?z = "case zScores serviceLevel of Some v \<Rightarrow> v | None \<Rightarrow> fl64 1.65"
  have eoq: "calculateEOQ annualDemand orderingCost holdingCost
           = Some (Num (js_round2 (fl64 (sqrt ?q))))"
    using assms(1-4) by (simp add: calculateEOQ_def Let_def)
  have eoq2: "\<exists>n::int. calculateEOQ annualDemand orderingCost holdingCost
           = Some (Num (fl64 (of_int n / 100)))"
    unfolding eoq using js_round2_hundredths [of "fl64 (sqrt ?q)"] by simp
  have ss: "calculateSafetyStock averageDailyDemand leadTimeDays serviceLevel demandStdDev
           = Num (js_round2 (fl64 (fl64 (?z * demandStdDev) * fl64 (sqrt leadTimeDays))))"
    using assms(5) by (simp add: calculateSafetyStock_def Let_def)
  have ss2: "\<exists>n::int. calculateSafetyStock averageDailyDemand leadTimeDays serviceLevel demandStdDev
           = Num (fl64 (of_int n / 100))"
    unfolding ss
    using js_round2_hundredths [of "fl64 (fl64 (?z * demandStdDev) * fl64 (sqrt leadTimeDays))"]
    by simp
  have z95: "(case zScores (fl64 0.95) of Some v \<Rightarrow> v | None \<Rightarrow> fl64 1.65) = fl64 1.65"
    by code_simp
  have rp: "healthMetrics_reorderPoint lt averageDailyDemand demandStdDev
           = Num (fl64 (fl64 (averageDailyDemand * l)
                  + js_round2 (fl64 (fl64 (fl64 1.65 * demandStdDev) * fl64 (sqrt l)))))"
    if "(case lt of None \<Rightarrow> 7 | Some l \<Rightarrow> if l = 0 then 7 else l) = l" and "0 \<le> l" for lt l
    using that
    unfolding healthMetrics_reorderPoint_def healthMetrics_safetyStock_def
      calculateSafetyStock_def calculateReorderPoint_def Let_def z95
    by simp
  have rp_none: "healthMetrics_reorderPoint None averageDailyDemand demandStdDev
           = Num (fl64 (fl64 (averageDailyDemand * 7)
                  + js_round2 (fl64 (fl64 (fl64 1.65 * demandStdDev) * fl64 (sqrt 7)))))"
    by (rule rp) simp_all
  have rp_some: "healthMetrics_reorderPoint (Some leadTimeDays) averageDailyDemand demandStdDev
           = Num (fl64 (fl64 (averageDailyDemand * leadTimeDays)
                  + js_round2 (fl64 (fl64 (fl64 1.65 * demandStdDev) * fl64 (sqrt leadTimeDays)))))"
    if "leadTimeDays \<noteq> 0"
    by (rule rp) (use that assms(5) in simp_all)
  have rp_zero: "healthMetrics_reorderPoint (Some 0) averageDailyDemand demandStdDev
           = healthMetrics_reorderPoint None averageDailyDemand demandStdDev"
    by (simp add: healthMetrics_reorderPoint_def healthMetrics_safetyStock_def
        split: jsnum.split)
  have plain: "calculateReorderPoint averageDailyDemand leadTimeDays demandStdDev
           = fl64 (fl64 (averageDailyDemand * leadTimeDays) + demandStdDev)"
    "calculateTurnover annualDemand holdingCost = fl64 (annualDemand / holdingCost)"
    "calculateDIO annualDemand holdingCost leadTimeDays
       = fl64 (fl64 (annualDemand / holdingCost) * leadTimeDays)"
    using assms(3)
    by (simp_all add: calculateReorderPoint_def calculateTurnover_def calculateDIO_def)
  have eighth: "calculateTurnover 1 8 = 0.125" by code_simp
  show ?thesis
    using eoq eoq2 ss ss2 rp_none rp_some rp_zero plain eighth by blast
qed

theorem inventory_formulas_round_witness:
  "(1000::real) \<noteq> 0 \<and> (50::real) \<noteq> 0 \<and> (10::real) \<noteq> 0
   \<and> (0::real) \<le> fl64 (fl64 (fl64 (2 * 1000) * 50) / 10) \<and> (0::real) \<le> 4
   \<and> calculateEOQ 1000 50 10 = Some (Num 100)
   \<and> calculateSafetyStock 10 4 (fl64 0.95) 5 = Num 16.5
   \<and> (4::real) \<noteq> 0
   \<and> healthMetrics_reorderPoint (Some 4) 10 5 = Num 56.5"
proof -
  have q: "fl64 (fl64 (fl64 (2 * 1000) * 50) / 10) = 10000" by code_simp
  have s: "sqrt 10000 = 100" "sqrt 4 = 2"
    by (rule real_sqrt_unique; simp)+
  have r: "js_round2 (fl64 100) = 100" by code_simp
  have z: "(case zScores (fl64 0.95) of Some v \<Rightarrow> v | None \<Rightarrow> fl64 1.65) = fl64 1.65"
    by code_simp
  have r2: "js_round2 (fl64 (fl64 (fl64 1.65 * 5) * fl64 2)) = 16.5" by code_simp
  have r3: "fl64 (fl64 (10 * 4) + 16.5) = 56.5" by code_simp
  have h: "(0::real) \<le> fl64 (fl64 (fl64 (2 * 1000) * 50) / 10)" unfolding q by simp
  from inventory_formulas_round [of 1000 50 10 4 10 "fl64 0.95" 5, OF _ _ _ h]
  have "calculateEOQ 1000 50 10 = Some (Num 100)"
    and "calculateSafetyStock 10 4 (fl64 0.95) 5 = Num 16.5"
    and "healthMetrics_reorderPoint (Some 4) 10 5 = Num 56.5"
    unfolding q s r z r2 r3 by simp_all
  then show ?thesis using h by simp
qed

text \<open>
  The values that the tests of the repository assert.
\<close>

lemma inventory_test_values:
  "calculateEOQ 1000 50 10 = Some (Num 100)
   \<and> calculateReorderPoint 10 7 20 = 90
   \<and> calculateDIO 5000 36500 365 = 50"
proof -
  have q: "fl64 (fl64 (fl64 (2 * 1000) * 50) / 10) = 10000" by code_simp
  have s: "sqrt 10000 = 100" by (rule real_sqrt_unique; simp)
  have r: "js_round2 (fl64 100) = 100" by code_simp
  have e: "calculateEOQ 1000 50 10 = Some (Num 100)"
    unfolding calculateEOQ_def Let_def q s using r by simp
  have p: "calculateReorderPoint 10 7 20 = 90" by code_simp
  have d: "calculateDIO 5000 36500 365 = 50" by code_simp
  show ?thesis using e p d by simp
qed

text \<open>
  Two inputs at which the rounding of the double operations decides the cent: the exact
  safety stock 2.475 is computed as 2.4749999999999996 and returned as 2.47, and the exact
  square root 0.035 is computed as 0.034999999999999996 and returned as 0.03.
\<close>

lemma calculateSafetyStock_cent:
  "calculateSafetyStock 10 1 (fl64 0.95) 1.5 = Num (fl64 2.47)"
proof -
  have z: "(case zScores (fl64 0.95) of Some v \<Rightarrow> v | None \<Rightarrow> fl64 1.65) = fl64 1.65"
    by code_simp
  have r: "js_round2 (fl64 (fl64 (fl64 1.65 * 1.5) * fl64 1)) = fl64 2.47" by code_simp
  show ?thesis
    unfolding calculateSafetyStock_def Let_def z using r by simp
qed

lemma calculateEOQ_cent: "calculateEOQ 49 1 80000 = Some (Num (fl64 0.03))"
proof -
  let ?q = "2824657686286775 / 2305843009213693952 :: real"
  let ?x = "sqrt ?q"
  have q: "fl64 (fl64 (fl64 (2 * 49) * 1) / 80000) = ?q" by code_simp
  have pos: "0 < ?x" by simp
  have lo: "1 / 32 \<le> ?x" by (rule real_le_rsqrt) (simp add: power2_eq_square)
  have hi: "?x < 1 / 16" by (rule real_less_lsqrt) (simp_all add: power2_eq_square)
  have m1: "(5044031582654955 - 1 / 2) / 2 ^ 57 < ?x"
    by (rule real_less_rsqrt) (simp add: power2_eq_square)
  have m2: "?x < (5044031582654955 + 1 / 2) / 2 ^ 57"
    by (rule real_less_lsqrt) (simp_all add: power2_eq_square)
  have p5: "(2::real) powi (- 5) = 1 / 32" "(2::real) powi (- 5 + 1) = 1 / 16"
    "(2::real) powi (- 5 - 52) = 1 / 2 ^ 57"
    by (simp_all add: power_int_def field_simps)
  have "fl64 ?x = of_int 5044031582654955 * 2 powi (- 5 - 52)"
  proof (rule fl64_eqI)
    show "0 < ?x" by (rule pos)
    show "2 powi (- 5) \<le> ?x" unfolding p5 by (rule lo)
    show "?x < 2 powi (- 5 + 1)" unfolding p5 by (rule hi)
    show "of_int 5044031582654955 - 1 / 2 < ?x / 2 powi (- 5 - 52)"
      unfolding p5 using m1 by (simp add: field_simps)
    show "?x / 2 powi (- 5 - 52) < of_int 5044031582654955 + 1 / 2"
      unfolding p5 using m2 by (simp add: field_simps)
  qed
  then have s: "fl64 ?x = 5044031582654955 / 144115188075855872"
    unfolding p5 by simp
  have r: "js_round2 (5044031582654955 / 144115188075855872) = fl64 0.03" by code_simp
  have nn: "\<not> ?q < 0" by simp
  show ?thesis
    unfolding calculateEOQ_def Let_def q s using r nn by simp
qed

section \<open>Optimal order\<close>

text \<open>
  C3, as the specification states it: \<open>adjusted\<close> is the larger of \<open>recommended\<close> and
  1.2 times the forecast demand of the first seven points. The function rounds the three
  quantities it returns: with a single forecast point of 1, no stock and a reorder point
  of 0, the claimed value of \<open>adjusted\<close> is 1.2 and the function returns 1.
\<close>

theorem calculateOptimalOrder_unrounded_counterexample:
  "adjusted (calculateOptimalOrder
       [\<lparr> date = ''2024-01-01'', predicted = 1, upper_bound = 1, lower_bound = 1,
           scenario_impact = None, promotion_lift = None \<rparr>] 0 0 200) = 1
   \<and> max (max 0 (0 - 0)) (1.2 * (1::real)) = 1.2
   \<and> adjusted (calculateOptimalOrder
       [\<lparr> date = ''2024-01-01'', predicted = 1, upper_bound = 1, lower_bound = 1,
           scenario_impact = None, promotion_lift = None \<rparr>] 0 0 200)
       \<noteq> max (max 0 (0 - 0)) (1.2 * 1)"
  by code_simp

text \<open>
  C3, amended. With \<open>rec = max 0 (reorderPoint - currentStock)\<close> and \<open>adj\<close> the larger
  of \<open>rec\<close> and the sum of \<open>predicted\<close> over the first seven forecast points times 1.2,
  all computed on doubles, \<open>calculateOptimalOrder\<close> returns \<open>recommended = round rec\<close>,
  \<open>adjusted = round adj\<close> and \<open>final = max 0 (round (min adj (maxStock - currentStock)))\<close>,
  where \<open>round\<close> is \<open>Math.round\<close>. \<open>final\<close> is never negative and never exceeds the
  rounded remaining capacity, or 0 when that is negative. \<open>recommended\<close> is the
  unrounded \<open>rec\<close> when the computed difference is an integer. \<open>urgent\<close> and \<open>critical\<close>
  are \<open>currentStock < reorderPoint * 0.5\<close> and \<open>currentStock < reorderPoint * 0.25\<close>.
  With no stock, a reorder point of 50, a maximum of 200 and an empty forecast:
  recommended 50, final 50, urgent, critical.
\<close>

theorem calculateOptimalOrder_spec:
  "(let r = calculateOptimalOrder fc currentStock reorderPoint maxStock;
        rec = max 0 (fl64 (reorderPoint - currentStock));
        adj = max rec (fl64 (fsum (map predicted (take 7 fc)) * fl64 1.2))
    in recommended r = js_round rec
     \<and> adjusted r = js_round adj
     \<and> final r = max 0 (js_round (min adj (fl64 (maxStock - currentStock))))
     \<and> 0 \<le> final r
     \<and> final r \<le> max 0 (js_round (fl64 (maxStock - currentStock)))
     \<and> (fl64 (reorderPoint - currentStock) \<in> \<int> \<longrightarrow> recommended r = rec)
     \<and> (double reorderPoint \<longrightarrow>
           urgent r = (currentStock < reorderPoint * 0.5)
         \<and> critical r = (currentStock < reorderPoint * 0.25)))
   \<and> calculateOptimalOrder [] 0 50 200
       = \<lparr> recommended = 50, adjusted = 50, final = 50, urgent = True, critical = True \<rparr>"
proof -
  let ?rec = "max 0 (fl64 (reorderPoint - currentStock))"
  let ?adj = "max ?rec (fl64 (fsum (map predicted (take 7 fc)) * fl64 1.2))"
  let ?cap = "fl64 (maxStock - currentStock)"
  let ?r = "calculateOptimalOrder fc currentStock reorderPoint maxStock"
  have fields: "recommended ?r = js_round ?rec" "adjusted ?r = js_round ?adj"
    "final ?r = max 0 (js_round (min ?adj ?cap))"
    "urgent ?r = (currentStock < fl64 (reorderPoint * 0.5))"
    "critical ?r = (currentStock < fl64 (reorderPoint * 0.25))"
    by (simp_all add: calculateOptimalOrder_def Let_def fsum_map)
  have nonneg: "0 \<le> final ?r" unfolding fields by simp
  have "js_round (min ?adj ?cap) \<le> js_round ?cap"
    by (rule js_round_mono) simp
  then have cap: "final ?r \<le> max 0 (js_round ?cap)"
    unfolding fields by simp
  have whole: "recommended ?r = ?rec" if "fl64 (reorderPoint - currentStock) \<in> \<int>"
  proof -
    have "?rec \<in> \<int>" using that by (simp add: max_def)
    then show ?thesis unfolding fields by (rule js_round_Ints)
  qed
  have flags: "urgent ?r = (currentStock < reorderPoint * 0.5)
      \<and> critical ?r = (currentStock < reorderPoint * 0.25)" if "double reorderPoint"
    unfolding fields double_half [OF that] double_quarter [OF that] by (rule conjI) (rule refl)+
  have example: "calculateOptimalOrder [] 0 50 200
       = \<lparr> recommended = 50, adjusted = 50, final = 50, urgent = True, critical = True \<rparr>"
    by code_simp
  show ?thesis
    unfolding Let_def using fields(1-3) nonneg cap whole flags example by blast
qed

theorem calculateOptimalOrder_spec_witness:
  "fl64 (50 - 0) \<in> \<int> \<and> double 50
   \<and> recommended (calculateOptimalOrder [] 0 50 200) = max 0 (fl64 (50 - 0))
   \<and> final (calculateOptimalOrder [] 0 50 200) = 50
   \<and> urgent (calculateOptimalOrder [] 0 50 200) = ((0::real) < 50 * 0.5)
   \<and> critical (calculateOptimalOrder [] 0 50 200) = ((0::real) < 50 * 0.25)"
proof -
  have v: "fl64 (50 - 0) = 50" by code_simp
  have v': "fl64 50 = 50" by code_simp
  have i: "fl64 (50 - 0) \<in> \<int>" unfolding v by simp
  have d: "double 50" by code_simp
  from calculateOptimalOrder_spec [of "[]" 0 50 200] i d
  show ?thesis by (simp add: Let_def v')
qed

text \<open>
  Two inputs at which the rounding of the double operations decides the unit: the
  difference of 74.94 and 20.44 is computed as 54.5 and rounded to 55, and the sum of
  17.24 and 11.51 times 1.2 is computed as 34.5 and rounded to 35.
\<close>

lemma calculateOptimalOrder_half_unit:
  "recommended (calculateOptimalOrder [] (fl64 20.44) (fl64 74.94) 200) = 55
   \<and> adjusted (calculateOptimalOrder
       [\<lparr> date = ''2024-01-01'', predicted = fl64 17.24, upper_bound = 0, lower_bound = 0,
           scenario_impact = None, promotion_lift = None \<rparr>,
        \<lparr> date = ''2024-01-02'', predicted = fl64 11.51, upper_bound = 0, lower_bound = 0,
           scenario_impact = None, promotion_lift = None \<rparr>] 0 0 200) = 35"
  by code_simp

section \<open>ABC classification\<close>

lemma class_writes_length [simp]: "length (class_writes t c vs) = length vs"
  by (induction vs arbitrary: c) (simp_all add: Let_def)

lemma class_writes_nth:
  "k < length vs \<Longrightarrow>
     class_writes t c vs ! k =
       classify_percentage (js_div (foldl (\<lambda>sum v. fl64 (sum + v)) c (take (Suc k) vs)) t)"
proof (induction vs arbitrary: c k)
  case Nil
  then show ?case by simp
next
  case (Cons v vs)
  show ?case
  proof (cases k)
    case 0
    then show ?thesis by (simp add: Let_def)
  next
    case (Suc j)
    with Cons.prems have "j < length vs" by simp
    from Cons.IH [OF this, of "fl64 (c + v)"] Suc show ?thesis by (simp add: Let_def)
  qed
qed

lemma write_keeps_value:
  "(\<lambda>b. annualValue ((h(a := (h a)\<lparr>item_class := c\<rparr>)) b)) = (\<lambda>b. annualValue (h b))"
  by (rule ext) simp

lemma classify_loop_writes:
  "classify_loop h t c xs =
     write_classes h (zip xs (class_writes t c (map (\<lambda>a. annualValue (h a)) xs)))"
proof (induction xs arbitrary: h c)
  case Nil
  then show ?case by simp
next
  case (Cons a xs)
  show ?case
    by (simp add: Let_def Cons.IH write_keeps_value del: fun_upd_apply)
qed

lemma write_classes_apply:
  "write_classes h ws a =
     (case map_of (rev ws) a of None \<Rightarrow> h a | Some c \<Rightarrow> (h a)\<lparr>item_class := Some c\<rparr>)"
proof (induction ws arbitrary: h)
  case Nil
  then show ?case by simp
next
  case (Cons w ws)
  obtain b c where w: "w = (b, c)" by (cases w)
  show ?case
    unfolding w by (simp add: Cons.IH map_add_def split: option.splits)
qed

lemma write_classes_idem: "write_classes (write_classes h ws) ws = write_classes h ws"
  by (rule ext) (simp add: write_classes_apply split: option.splits)

lemma write_classes_value [simp]: "annualValue (write_classes h ws a) = annualValue (h a)"
  by (simp add: write_classes_apply split: option.splits)

lemma write_classes_unclassified:
  "(write_classes h ws a)\<lparr>item_class := None\<rparr> = (h a)\<lparr>item_class := None\<rparr>"
  by (simp add: write_classes_apply split: option.splits)

lemma write_classes_frame: "a \<notin> fst ` set ws \<Longrightarrow> write_classes h ws a = h a"
proof -
  assume "a \<notin> fst ` set ws"
  then have "map_of (rev ws) a = None" by (simp add: map_of_eq_None_iff)
  then show ?thesis by (simp add: write_classes_apply)
qed

lemma map_of_rev_zip_last:
  "length xs = length ys \<Longrightarrow> k < length xs \<Longrightarrow>
   (\<forall>j. k < j \<and> j < length xs \<longrightarrow> xs ! j \<noteq> xs ! k) \<Longrightarrow>
   map_of (rev (zip xs ys)) (xs ! k) = Some (ys ! k)"
proof (induction xs ys arbitrary: k rule: list_induct2)
  case Nil
  then show ?case by simp
next
  case (Cons x xs y ys)
  show ?case
  proof (cases k)
    case 0
    have "x \<notin> set xs"
    proof
      assume "x \<in> set xs"
      then obtain i where i: "i < length xs" "xs ! i = x" by (auto simp: in_set_conv_nth)
      with Cons.prems(2) 0 have "(x # xs) ! Suc i \<noteq> (x # xs) ! k" by auto
      with i 0 show False by simp
    qed
    then have "x \<notin> fst ` set (rev (zip xs ys))"
      by (auto dest: set_zip_leftD)
    then have "map_of (rev (zip xs ys)) x = None" by (simp add: map_of_eq_None_iff)
    with 0 show ?thesis by (simp add: map_add_def)
  next
    case (Suc i)
    with Cons.prems have i: "i < length xs" by simp
    have "\<forall>j. i < j \<and> j < length xs \<longrightarrow> xs ! j \<noteq> xs ! i"
    proof (intro allI impI)
      fix j assume j: "i < j \<and> j < length xs"
      with Cons.prems(2) Suc have "(x # xs) ! Suc j \<noteq> (x # xs) ! k" by auto
      with Suc show "xs ! j \<noteq> xs ! i" by simp
    qed
    from Cons.IH [OF i this] Suc show ?thesis by (simp add: map_add_def)
  qed
qed

lemma map_of_rev_zip_in:
  assumes "length xs = length ys" and "a \<in> set xs"
  shows "\<exists>c \<in> set ys. map_of (rev (zip xs ys)) a = Some c"
proof -
  have "a \<in> fst ` set (rev (zip xs ys))"
  proof -
    from assms(2) obtain i where i: "i < length xs" "xs ! i = a"
      by (auto simp: in_set_conv_nth)
    then have "(a, ys ! i) \<in> set (zip xs ys)"
      using assms(1) by (auto simp: set_zip)
    then show ?thesis by (force simp: image_iff)
  qed
  then obtain c where c: "map_of (rev (zip xs ys)) a = Some c"
    by (metis map_of_eq_None_iff not_None_eq)
  then have "(a, c) \<in> set (rev (zip xs ys))" by (rule map_of_SomeD)
  then have "c \<in> set ys" by (auto dest: set_zip_rightD)
  with c show ?thesis by blast
qed

lemma fsum_negative:
  "c < 0 \<Longrightarrow> (\<And>v. v \<in> set vs \<Longrightarrow> v < 0) \<Longrightarrow> foldl (\<lambda>sum v. fl64 (sum + v)) c vs < 0"
proof (induction vs arbitrary: c)
  case Nil
  then show ?case by simp
next
  case (Cons v vs)
  have "c + v < 0" using Cons.prems by (simp add: add_neg_neg)
  then have "fl64 (c + v) < 0" by (rule fl64_neg)
  then show ?case using Cons.prems(2) by (simp add: Cons.IH)
qed

lemma class_writes_zero_total:
  "0 \<le> c \<Longrightarrow> sorted (map uminus vs) \<Longrightarrow> foldl (\<lambda>sum v. fl64 (sum + v)) c vs = 0 \<Longrightarrow>
   x \<in> set (class_writes 0 c vs) \<Longrightarrow> x = C"
proof (induction vs arbitrary: c)
  case Nil
  then show ?case by simp
next
  case (Cons v vs)
  let ?c' = "fl64 (c + v)"
  have rest_le: "\<And>w. w \<in> set vs \<Longrightarrow> w \<le> v" using Cons.prems(2) by auto
  have step: "0 \<le> ?c'"
  proof (rule ccontr)
    assume "\<not> 0 \<le> ?c'"
    then have neg: "?c' < 0" by simp
    then have "c + v < 0" by (simp add: fl64_neg_iff)
    with Cons.prems(1) have "v < 0" by simp
    with rest_le have "\<And>w. w \<in> set vs \<Longrightarrow> w < 0" by fastforce
    with neg have "foldl (\<lambda>sum v. fl64 (sum + v)) ?c' vs < 0" by (rule fsum_negative)
    with Cons.prems(3) show False by simp
  qed
  have here: "classify_percentage (js_div ?c' 0) = C"
    using step by (simp add: js_div_def classify_percentage_def)
  have sorted': "sorted (map uminus vs)" using Cons.prems(2) by simp
  have total': "foldl (\<lambda>sum v. fl64 (sum + v)) ?c' vs = 0" using Cons.prems(3) by simp
  from Cons.prems(4) consider "x = C" | "x \<in> set (class_writes 0 ?c' vs)"
    by (auto simp: Let_def here)
  then show ?case
  proof cases
    case 1
    then show ?thesis .
  next
    case 2
    from Cons.IH [OF step sorted' total' 2] show ?thesis .
  qed
qed

lemma classifyABC_unfold:
  "classifyABC h items =
     (let sorted = sort_key (\<lambda>a. - annualValue (h a)) items;
          vals = map (\<lambda>a. annualValue (h a)) sorted
      in (write_classes h (zip sorted (class_writes (fsum vals) 0 vals)), sorted))"
  by (simp add: classifyABC_def Let_def classify_loop_writes fsum_map)

lemma count_class_total:
  "(\<And>a. a \<in> set xs \<Longrightarrow> item_class (h a) \<noteq> None) \<Longrightarrow>
     count_class A h xs + count_class B h xs + count_class C h xs = length xs"
proof (induction xs)
  case Nil
  then show ?case by (simp add: count_class_def)
next
  case (Cons x xs)
  then obtain cl where cl: "item_class (h x) = Some cl" by fastforce
  have "count_class A h xs + count_class B h xs + count_class C h xs = length xs"
    using Cons by simp
  then show ?case using cl by (cases cl) (simp_all add: count_class_def)
qed

text \<open>
  C1, as the specification states it: every item of the list is given the class of its
  cumulative fraction. \<open>classifyABC\<close> writes the class into the item object itself. In a
  list that holds the same object twice, of value 1, the fraction at the first position
  is 0.5, which is at most 0.8, and the object is written A there and C at the second
  position: the item at the first position of the result has class C.
\<close>

theorem classifyABC_alias_counterexample:
  "snd (classifyABC unit_store [0, 0]) = [0, 0]
   \<and> fl64 (fsum [annualValue (unit_store 0)]
            / fsum [annualValue (unit_store 0), annualValue (unit_store 0)]) \<le> fl64 0.8
   \<and> item_class (fst (classifyABC unit_store [0, 0]) 0) = Some C
   \<and> item_class (fst (classifyABC unit_store [0, 0]) 0) \<noteq> Some A"
  by code_simp

text \<open>
  C1, amended. \<open>classifyABC\<close> returns the items sorted descending by value, the same
  objects with only their class written and no other object touched. With the running
  sum and its quotient by the total computed on doubles, the item at a position of the
  result has class A when the cumulative fraction there is at most 0.8, class B when it
  is at most 0.95 and class C otherwise, provided that no later position holds the same
  object, as in every list of distinct objects; an object that the list holds more than
  once carries the class of its last position. Every position holds an item with a class,
  so the counts of A, B and C sum to the input's length. When the total value is 0 the
  fraction is a division by zero, and every item is classified C.
\<close>

theorem classifyABC_spec:
  assumes "items \<noteq> []"
  shows "(let h' = fst (classifyABC h items);
              out = snd (classifyABC h items);
              vals = map (\<lambda>a. annualValue (h a)) out
          in mset out = mset items
           \<and> sorted_wrt (\<lambda>a b. annualValue (h b) \<le> annualValue (h a)) out
           \<and> (\<forall>a. (h' a)\<lparr>item_class := None\<rparr> = (h a)\<lparr>item_class := None\<rparr>)
           \<and> (\<forall>a. a \<notin> set items \<longrightarrow> h' a = h a)
           \<and> (fsum vals \<noteq> 0 \<longrightarrow>
                (\<forall>k < length items.
                   (\<forall>j. k < j \<and> j < length items \<longrightarrow> out ! j \<noteq> out ! k) \<longrightarrow>
                   item_class (h' (out ! k)) =
                     (let fraction = fl64 (fsum (take (Suc k) vals) / fsum vals)
                      in Some (if fraction \<le> fl64 0.8 then A
                               else if fraction \<le> fl64 0.95 then B else C))))
           \<and> (distinct items \<longrightarrow> fsum vals \<noteq> 0 \<longrightarrow>
                (\<forall>k < length items.
                   item_class (h' (out ! k)) =
                     (let fraction = fl64 (fsum (take (Suc k) vals) / fsum vals)
                      in Some (if fraction \<le> fl64 0.8 then A
                               else if fraction \<le> fl64 0.95 then B else C))))
           \<and> length out = length items
           \<and> count_class A h' out + count_class B h' out + count_class C h' out = length items
           \<and> (fsum vals = 0 \<longrightarrow> (\<forall>k < length items. item_class (h' (out ! k)) = Some C)))"
proof -
  let ?key = "\<lambda>a. - annualValue (h a)"
  let ?s = "sort_key ?key items"
  let ?vals = "map (\<lambda>a. annualValue (h a)) ?s"
  let ?cls = "class_writes (fsum ?vals) 0 ?vals"
  let ?ws = "zip ?s ?cls"
  let ?h' = "write_classes h ?ws"
  have r: "classifyABC h items = (?h', ?s)" by (simp add: classifyABC_unfold Let_def)
  have len: "length ?s = length ?cls" by simp
  have p1: "mset ?s = mset items" by simp
  have "sorted (map ?key ?s)" by simp
  then have p2: "sorted_wrt (\<lambda>a b. annualValue (h b) \<le> annualValue (h a)) ?s"
    by (simp add: sorted_map)
  have p3: "(?h' a)\<lparr>item_class := None\<rparr> = (h a)\<lparr>item_class := None\<rparr>" for a
    by (rule write_classes_unclassified)
  have p4: "?h' a = h a" if "a \<notin> set items" for a
  proof (rule write_classes_frame)
    show "a \<notin> fst ` set ?ws" using that by (auto dest: set_zip_leftD)
  qed
  have written: "item_class (?h' (?s ! k)) = Some (?cls ! k)"
    if k: "k < length items" and last: "\<forall>j. k < j \<and> j < length items \<longrightarrow> ?s ! j \<noteq> ?s ! k" for k
  proof -
    have "k < length ?s" using k by simp
    moreover have "\<forall>j. k < j \<and> j < length ?s \<longrightarrow> ?s ! j \<noteq> ?s ! k" using last by simp
    ultimately have "map_of (rev ?ws) (?s ! k) = Some (?cls ! k)"
      using len by (intro map_of_rev_zip_last)
    then show ?thesis by (simp add: write_classes_apply)
  qed
  have p5: "item_class (?h' (?s ! k)) =
              Some (if fl64 (fsum (take (Suc k) ?vals) / fsum ?vals) \<le> fl64 0.8 then A
                    else if fl64 (fsum (take (Suc k) ?vals) / fsum ?vals) \<le> fl64 0.95 then B
                    else C)"
    if nz: "fsum ?vals \<noteq> 0" and k: "k < length items"
      and last: "\<forall>j. k < j \<and> j < length items \<longrightarrow> ?s ! j \<noteq> ?s ! k" for k
  proof -
    have "k < length ?vals" using k by simp
    from class_writes_nth [OF this, of "fsum ?vals" 0]
    have "?cls ! k = classify_percentage (js_div (fsum (take (Suc k) ?vals)) (fsum ?vals))"
      by (simp add: fsum_def)
    with written [OF k last] nz show ?thesis
      by (simp add: js_div_def classify_percentage_def Let_def)
  qed
  have p5d: "item_class (?h' (?s ! k)) =
              Some (if fl64 (fsum (take (Suc k) ?vals) / fsum ?vals) \<le> fl64 0.8 then A
                    else if fl64 (fsum (take (Suc k) ?vals) / fsum ?vals) \<le> fl64 0.95 then B
                    else C)"
    if d: "distinct items" and nz: "fsum ?vals \<noteq> 0" and k: "k < length items" for k
  proof -
    have ds: "distinct ?s" using d by simp
    have "\<forall>j. k < j \<and> j < length items \<longrightarrow> ?s ! j \<noteq> ?s ! k"
      using ds k by (auto simp: nth_eq_iff_index_eq)
    with nz k show ?thesis by (rule p5)
  qed
  have p6: "length ?s = length items" by simp
  have classified: "\<exists>c \<in> set ?cls. item_class (?h' a) = Some c" if "a \<in> set ?s" for a
  proof -
    from map_of_rev_zip_in [OF len that] obtain c where
      "c \<in> set ?cls" "map_of (rev ?ws) a = Some c" by blast
    then show ?thesis by (auto simp: write_classes_apply)
  qed
  have "count_class A ?h' ?s + count_class B ?h' ?s + count_class C ?h' ?s = length ?s"
  proof (rule count_class_total)
    fix a assume "a \<in> set ?s"
    from classified [OF this] show "item_class (?h' a) \<noteq> None" by auto
  qed
  then have p7: "count_class A ?h' ?s + count_class B ?h' ?s + count_class C ?h' ?s = length items"
    by simp
  have p8: "item_class (?h' (?s ! k)) = Some C" if z: "fsum ?vals = 0" and k: "k < length items" for k
  proof -
    have "k < length ?s" using k by simp
    then have "?s ! k \<in> set ?s" by (rule nth_mem)
    from classified [OF this] obtain c where c: "c \<in> set ?cls" "item_class (?h' (?s ! k)) = Some c"
      by blast
    have a: "(0::real) \<le> 0" by simp
    have "map uminus ?vals = map ?key ?s" by simp
    then have b: "sorted (map uminus ?vals)" by (simp only: sorted_sort_key)
    have t: "foldl (\<lambda>sum v. fl64 (sum + v)) 0 ?vals = 0" using z by (simp add: fsum_def)
    have "c \<in> set (class_writes 0 0 ?vals)" using c(1) z by simp
    from class_writes_zero_total [OF a b t this] c(2) show ?thesis by simp
  qed
  show ?thesis
    unfolding r Let_def fst_conv snd_conv
  proof (intro conjI allI impI)
    show "mset ?s = mset items" by (rule p1)
    show "sorted_wrt (\<lambda>a b. annualValue (h b) \<le> annualValue (h a)) ?s" by (rule p2)
    show "length ?s = length items" by (rule p6)
    show "count_class A ?h' ?s + count_class B ?h' ?s + count_class C ?h' ?s = length items"
      by (rule p7)
  next
    fix a show "(?h' a)\<lparr>item_class := None\<rparr> = (h a)\<lparr>item_class := None\<rparr>" by (rule p3)
  next
    fix a assume "a \<notin> set items" then show "?h' a = h a" by (rule p4)
  next
    fix k
    assume "fsum ?vals \<noteq> 0" and "k < length items"
      and "\<forall>j. k < j \<and> j < length items \<longrightarrow> ?s ! j \<noteq> ?s ! k"
    then show "item_class (?h' (?s ! k)) =
              Some (if fl64 (fsum (take (Suc k) ?vals) / fsum ?vals) \<le> fl64 0.8 then A
                    else if fl64 (fsum (take (Suc k) ?vals) / fsum ?vals) \<le> fl64 0.95 then B
                    else C)"
      by (rule p5)
  next
    fix k
    assume "distinct items" and "fsum ?vals \<noteq> 0" and "k < length items"
    then show "item_class (?h' (?s ! k)) =
              Some (if fl64 (fsum (take (Suc k) ?vals) / fsum ?vals) \<le> fl64 0.8 then A
                    else if fl64 (fsum (take (Suc k) ?vals) / fsum ?vals) \<le> fl64 0.95 then B
                    else C)"
      by (rule p5d)
  next
    fix k assume "fsum ?vals = 0" and "k < length items"
    then show "item_class (?h' (?s ! k)) = Some C" by (rule p8)
  qed
qed

theorem classifyABC_spec_witness:
  "[0, 1, 2, 3, 4 :: addr] \<noteq> []
   \<and> snd (classifyABC test_store [0, 1, 2, 3, 4]) = [1, 3, 2, 0, 4]
   \<and> fsum (map (\<lambda>a. annualValue (test_store a)) [1, 3, 2, 0, 4]) \<noteq> 0
   \<and> map (\<lambda>a. item_class (fst (classifyABC test_store [0, 1, 2, 3, 4]) a)) [1, 3, 2, 0, 4]
       = [Some A, Some A, Some B, Some C, Some C]
   \<and> distinct [0, 1, 2, 3, 4 :: addr]
   \<and> count_class A (fst (classifyABC test_store [0, 1, 2, 3, 4])) [1, 3, 2, 0, 4]
       + count_class B (fst (classifyABC test_store [0, 1, 2, 3, 4])) [1, 3, 2, 0, 4]
       + count_class C (fst (classifyABC test_store [0, 1, 2, 3, 4])) [1, 3, 2, 0, 4] = 5
   \<and> fsum (map (\<lambda>a. annualValue (worthless_store a)) [0, 1]) = 0
   \<and> item_class (fst (classifyABC worthless_store [0, 1]) 0) = Some C
   \<and> item_class (fst (classifyABC worthless_store [0, 1]) 1) = Some C"
proof -
  have n: "[0, 1, 2, 3, 4 :: addr] \<noteq> []" "[0, 1 :: addr] \<noteq> []" by simp_all
  have out: "snd (classifyABC test_store [0, 1, 2, 3, 4]) = [1, 3, 2, 0, 4]" by code_simp
  have nz: "fsum (map (\<lambda>a. annualValue (test_store a)) [1, 3, 2, 0, 4]) \<noteq> 0" by code_simp
  have cls: "map (\<lambda>a. item_class (fst (classifyABC test_store [0, 1, 2, 3, 4]) a)) [1, 3, 2, 0, 4]
       = [Some A, Some A, Some B, Some C, Some C]" by code_simp
  have cnt: "count_class A (fst (classifyABC test_store [0, 1, 2, 3, 4])) [1, 3, 2, 0, 4]
       + count_class B (fst (classifyABC test_store [0, 1, 2, 3, 4])) [1, 3, 2, 0, 4]
       + count_class C (fst (classifyABC test_store [0, 1, 2, 3, 4])) [1, 3, 2, 0, 4] = 5"
    using classifyABC_spec [OF n(1), of test_store] unfolding Let_def out by simp
  have out0: "snd (classifyABC worthless_store [0, 1]) = [0, 1]" by code_simp
  have z: "fsum (map (\<lambda>a. annualValue (worthless_store a)) [0, 1]) = 0" by code_simp
  from classifyABC_spec [OF n(2), of worthless_store]
  have "\<forall>k < length [0, 1 :: addr].
          item_class (fst (classifyABC worthless_store [0, 1]) ([0, 1] ! k)) = Some C"
    unfolding Let_def out0 using z by blast
  then have c0: "item_class (fst (classifyABC worthless_store [0, 1]) 0) = Some C"
    and c1: "item_class (fst (classifyABC worthless_store [0, 1]) 1) = Some C"
    by (auto simp: nth_Cons')
  have d: "distinct [0, 1, 2, 3, 4 :: addr]" by simp
  show ?thesis using n out nz cls cnt z c0 c1 d by simp
qed

text \<open>
  An input at which the rounding of the double operations decides the class: for the
  values 1.6, 0.3 and 0.1 the total is computed as 2, the first fraction as 0.8 and the
  second as 0.9500000000000001, so that the classes are A, C, C.
\<close>

lemma classifyABC_boundary:
  "snd (classifyABC boundary_store [0, 1, 2]) = [0, 1, 2]
   \<and> map (\<lambda>a. item_class (fst (classifyABC boundary_store [0, 1, 2]) a)) [0, 1, 2]
       = [Some A, Some C, Some C]"
  by code_simp

text \<open>
  C9. ABC classification is idempotent: \<open>classifyABC\<close> applied to its own output, in the
  store that the first application leaves, whose items carry a class already, returns the
  same array and leaves the store as it is, so every item keeps its class.
\<close>

theorem classifyABC_idempotent:
  "classifyABC (fst (classifyABC h items)) (snd (classifyABC h items)) = classifyABC h items"
proof -
  let ?key = "\<lambda>a. - annualValue (h a)"
  let ?s = "sort_key ?key items"
  let ?vals = "map (\<lambda>a. annualValue (h a)) ?s"
  let ?ws = "zip ?s (class_writes (fsum ?vals) 0 ?vals)"
  let ?h1 = "write_classes h ?ws"
  have r: "classifyABC h items = (?h1, ?s)" by (simp add: classifyABC_unfold Let_def)
  have key1: "(\<lambda>a. - annualValue (?h1 a)) = ?key" by (rule ext) simp
  have vals1: "map (\<lambda>a. annualValue (?h1 a)) ?s = ?vals" by simp
  have "sorted (map ?key ?s)" by simp
  then have resort: "sort_key ?key ?s = ?s" by (rule sort_key_id_if_sorted)
  have "classifyABC ?h1 ?s = (write_classes ?h1 ?ws, ?s)"
    unfolding classifyABC_unfold [of ?h1 ?s] Let_def key1 resort vals1 ..
  then have "classifyABC ?h1 ?s = (?h1, ?s)" by (simp only: write_classes_idem)
  then show ?thesis by (simp add: r)
qed

section \<open>Scenarios\<close>

lemma impactedForecast_length: "length (impactedForecast fc m d) = length fc"
  by (simp add: impactedForecast_def)

lemma impactedForecast_nth:
  "i < length fc \<Longrightarrow>
     impactedForecast fc m d ! i = (if real i < d then shocked m (fc ! i) else fc ! i)"
  by (simp add: impactedForecast_def)

lemma promotionImpact_nth:
  "i < length fc \<Longrightarrow>
     promotionImpact fc m d ! i = (if real i < d then promoted m (fc ! i) else fc ! i)"
  by (simp add: promotionImpact_def)

lemma impactedForecast_flat: "map predicted (impactedForecast flat_forecast 1.5 7) = replicate 7 150 @ replicate 23 100"
proof (rule nth_equalityI)
  show "length (map predicted (impactedForecast flat_forecast 1.5 7)) = length (replicate 7 (150::real) @ replicate 23 100)"
    by (simp add: impactedForecast_length flat_forecast_def)
next
  fix i assume "i < length (map predicted (impactedForecast flat_forecast 1.5 7))"
  then have i: "i < 30" by (simp add: impactedForecast_length flat_forecast_def)
  then have "i < length flat_forecast" by (simp add: flat_forecast_def)
  from impactedForecast_nth [OF this, of "1.5" 7] i
  show "map predicted (impactedForecast flat_forecast 1.5 7) ! i = (replicate 7 150 @ replicate 23 100) ! i"
    by (simp add: impactedForecast_length flat_forecast_def shocked_def nth_append)
qed

text \<open>
  C2. The demand shock route multiplies \<open>predicted\<close>, \<open>upper_bound\<close> and \<open>lower_bound\<close>
  by the multiplier at the points whose index is below the duration, that is at the
  first \<open>duration\<close> points, and returns every point at an index from \<open>duration\<close> on
  unchanged. With multiplier 1.5 and duration 7 on a 30-point flat forecast of 100 the
  first 7 points have \<open>predicted = 150\<close> and the points 8 to 30 keep 100.
\<close>

theorem demand_shock_spec:
  "length (impactedForecast fc multiplier duration) = length fc
   \<and> (\<forall>i < length fc.
        (real i < duration \<longrightarrow>
           predicted (impactedForecast fc multiplier duration ! i) = predicted (fc ! i) * multiplier
         \<and> upper_bound (impactedForecast fc multiplier duration ! i) = upper_bound (fc ! i) * multiplier
         \<and> lower_bound (impactedForecast fc multiplier duration ! i) = lower_bound (fc ! i) * multiplier)
      \<and> (duration \<le> real i \<longrightarrow> impactedForecast fc multiplier duration ! i = fc ! i))
   \<and> demand_shock_route (Some \<lparr>forecast = Some fc\<rparr>) (Some multiplier) (Some duration)
        = Inr (impactedForecast fc multiplier duration)
   \<and> map predicted (impactedForecast flat_forecast 1.5 7) = replicate 7 150 @ replicate 23 100"
  using impactedForecast_flat
  by (simp add: impactedForecast_length impactedForecast_nth shocked_def demand_shock_route_def)

theorem demand_shock_spec_witness:
  "(3::nat) < length flat_forecast \<and> real (3::nat) < 7
   \<and> predicted (impactedForecast flat_forecast 1.5 7 ! 3) = 150
   \<and> (10::nat) < length flat_forecast \<and> (7::real) \<le> real (10::nat)
   \<and> impactedForecast flat_forecast 1.5 7 ! 10 = flat_forecast ! 10
   \<and> predicted (impactedForecast flat_forecast 1.5 7 ! 10) = 100"
proof -
  have l: "length flat_forecast = 30" by (simp add: flat_forecast_def)
  have a: "predicted (flat_forecast ! 3) = 100" "predicted (flat_forecast ! 10) = 100"
    by (simp_all add: flat_forecast_def)
  from demand_shock_spec [of flat_forecast "1.5" 7]
  have all: "\<forall>i < length flat_forecast.
        (real i < 7 \<longrightarrow>
           predicted (impactedForecast flat_forecast 1.5 7 ! i) = predicted (flat_forecast ! i) * 1.5)
      \<and> (7 \<le> real i \<longrightarrow> impactedForecast flat_forecast 1.5 7 ! i = flat_forecast ! i)"
    by blast
  from all have "3 < length flat_forecast \<longrightarrow> (real (3::nat) < 7 \<longrightarrow>
           predicted (impactedForecast flat_forecast 1.5 7 ! 3) = predicted (flat_forecast ! 3) * 1.5)"
    by blast
  then have b: "predicted (impactedForecast flat_forecast 1.5 7 ! 3) = 150" using l a by simp
  from all have "10 < length flat_forecast \<longrightarrow> (7 \<le> real (10::nat) \<longrightarrow>
           impactedForecast flat_forecast 1.5 7 ! 10 = flat_forecast ! 10)"
    by blast
  then have c: "impactedForecast flat_forecast 1.5 7 ! 10 = flat_forecast ! 10" using l by simp
  show ?thesis using l a b c by simp
qed

subsection \<open>Unknown scenario types\<close>

lemma impact_other:
  "scenario_type sc \<noteq> ''demand_shock'' \<Longrightarrow> scenario_type sc \<noteq> ''promotion'' \<Longrightarrow>
   calculateScenarioImpact b sc products =
     Inr \<lparr> totalDemandImpact = 0, percentageChange = 0,
           productsAffected = (case products of None \<Rightarrow> 0 | Some ps \<Rightarrow> length ps),
           severity = Low \<rparr>"
  by (simp add: calculateScenarioImpact_def impactMultiplier_def js_round_def)

lemma calculateScenarioImpact_throws: "calculateScenarioImpact b \<lparr>scenario_type = ''demand_shock'', parameters = None\<rparr> ps = Inl TypeError"
  by (simp add: calculateScenarioImpact_def impactMultiplier_def)

text \<open>
  C6. For a scenario whose type is none of \<open>demand_shock\<close>, \<open>supply_disruption\<close>,
  \<open>promotion\<close> and \<open>custom\<close>, \<open>calculateScenarioImpact\<close> returns an impact, not an
  error, and that impact has \<open>totalDemandImpact = 0\<close>, \<open>percentageChange = 0\<close> and
  \<open>severity = low\<close>.
\<close>

theorem unknown_scenario_type_no_impact:
  assumes "scenario_type sc \<notin> {''demand_shock'', ''supply_disruption'', ''promotion'', ''custom''}"
  shows "\<exists>r. calculateScenarioImpact b sc products = Inr r
     \<and> totalDemandImpact r = 0 \<and> percentageChange r = 0 \<and> severity r = Low"
  using assms by (simp add: impact_other)

theorem unknown_scenario_type_no_impact_witness:
  "''price_war'' \<notin> {''demand_shock'', ''supply_disruption'', ''promotion'', ''custom''}
   \<and> (\<exists>r. calculateScenarioImpact \<lparr>forecast = Some flat_forecast\<rparr>
             \<lparr>scenario_type = ''price_war'', parameters = None\<rparr> (None :: unit list option) = Inr r
        \<and> totalDemandImpact r = 0 \<and> percentageChange r = 0 \<and> severity r = Low)"
  using unknown_scenario_type_no_impact [of "\<lparr>scenario_type = ''price_war'', parameters = None\<rparr>"
      "\<lparr>forecast = Some flat_forecast\<rparr>" "None :: unit list option"]
  by simp

subsection \<open>The base forecast is not written\<close>

lemma lookup_append: "a < length h \<Longrightarrow> lookup (h @ ext) a = lookup h a"
  by (simp add: lookup_def nth_append)

lemma lookup_Some_less: "lookup h a = Some c \<Longrightarrow> a < length h"
  by (simp add: lookup_def split: if_splits)

lemma read_point_append: "read_point h a = Some p \<Longrightarrow> read_point (h @ ext) a = Some p"
proof -
  assume r: "read_point h a = Some p"
  then have "a < length h"
    by (auto simp: read_point_def dest: lookup_Some_less split: option.splits cell.splits)
  then show ?thesis using r by (simp add: read_point_def lookup_append)
qed

lemma read_point_new: "read_point (h @ PointObj p # ext) (length h) = Some p"
  by (simp add: read_point_def lookup_def)

lemma those_read_append:
  "those (map (read_point h) refs) = Some ps \<Longrightarrow> those (map (read_point (h @ ext)) refs) = Some ps"
proof (induction refs arbitrary: ps)
  case Nil
  then show ?case by simp
next
  case (Cons a as)
  from Cons.prems obtain p ps' where p: "read_point h a = Some p"
    and ps': "those (map (read_point h) as) = Some ps'" and eq: "ps = p # ps'"
    by (auto split: option.splits)
  from Cons.IH [OF ps'] read_point_append [OF p, of ext] eq
  show ?case by simp
qed

lemma map_first_reads:
  "those (map (read_point h) refs) = Some ps \<Longrightarrow>
   \<exists>ext out. map_first fresh d h refs i = Some (h @ ext, out)
     \<and> those (map (read_point (h @ ext)) out)
         = Some (map (\<lambda>(item, index). if real index < d then fresh item else item)
                   (zip ps [i ..< i + length ps]))"
proof (induction refs arbitrary: h i ps)
  case Nil
  then show ?case by simp
next
  case (Cons a as)
  from Cons.prems obtain p ps' where p: "read_point h a = Some p"
    and ps': "those (map (read_point h) as) = Some ps'" and eq: "ps = p # ps'"
    by (auto split: option.splits)
  from p have la: "lookup h a = Some (PointObj p)"
    by (auto simp: read_point_def split: option.splits cell.splits)
  have upt: "[i ..< i + length (p # ps')] = i # [Suc i ..< Suc i + length ps']"
    by (subst upt_rec) simp
  show ?case
  proof (cases "real i < d")
    case True
    let ?h1 = "h @ [PointObj (fresh p)]"
    have "those (map (read_point ?h1) as) = Some ps'" using ps' by (rule those_read_append)
    from Cons.IH [OF this, of "Suc i"] obtain ext out where
      m: "map_first fresh d ?h1 as (Suc i) = Some (?h1 @ ext, out)" and
      r: "those (map (read_point (?h1 @ ext)) out)
         = Some (map (\<lambda>(item, index). if real index < d then fresh item else item)
                   (zip ps' [Suc i ..< Suc i + length ps']))"
      by blast
    have run: "map_first fresh d h (a # as) i = Some (h @ (PointObj (fresh p) # ext), length h # out)"
      using la True m by (simp add: alloc_def)
    have new: "read_point (h @ PointObj (fresh p) # ext) (length h) = Some (fresh p)"
      by (rule read_point_new)
    have "those (map (read_point (h @ (PointObj (fresh p) # ext))) (length h # out))
         = Some (map (\<lambda>(item, index). if real index < d then fresh item else item)
                   (zip ps [i ..< i + length ps]))"
      unfolding eq upt using new r True by simp
    with run show ?thesis by blast
  next
    case False
    from Cons.IH [OF ps', of "Suc i"] obtain ext out where
      m: "map_first fresh d h as (Suc i) = Some (h @ ext, out)" and
      r: "those (map (read_point (h @ ext)) out)
         = Some (map (\<lambda>(item, index). if real index < d then fresh item else item)
                   (zip ps' [Suc i ..< Suc i + length ps']))"
      by blast
    have run: "map_first fresh d h (a # as) i = Some (h @ ext, a # out)"
      using la False m by simp
    have old: "read_point (h @ ext) a = Some p" using p by (rule read_point_append)
    have "those (map (read_point (h @ ext)) (a # out))
         = Some (map (\<lambda>(item, index). if real index < d then fresh item else item)
                   (zip ps [i ..< i + length ps]))"
      unfolding eq upt using old r False by simp
    with run show ?thesis by blast
  qed
qed

lemma read_points_append:
  "read_points h arr = Some ps \<Longrightarrow> read_points (h @ ext) arr = Some ps"
proof -
  assume r: "read_points h arr = Some ps"
  then obtain refs where l: "lookup h arr = Some (ArrayObj refs)"
    and t: "those (map (read_point h) refs) = Some ps"
    by (auto simp: read_points_def split: option.splits cell.splits)
  from l have "arr < length h" by (rule lookup_Some_less)
  then have "lookup (h @ ext) arr = Some (ArrayObj refs)" using l by (simp add: lookup_append)
  then show ?thesis using those_read_append [OF t, of ext] by (simp add: read_points_def)
qed

lemma map_store_frame:
  assumes "read_points h arr = Some ps"
  shows "\<exists>h' out. map_store fresh d h arr = Some (h', out)
     \<and> take (length h) h' = h
     \<and> length h \<le> out
     \<and> read_points h' arr = Some ps
     \<and> read_points h' out
         = Some (map (\<lambda>(item, index). if real index < d then fresh item else item)
                   (zip ps [0 ..< length ps]))"
proof -
  from assms obtain refs where l: "lookup h arr = Some (ArrayObj refs)"
    and t: "those (map (read_point h) refs) = Some ps"
    by (auto simp: read_points_def split: option.splits cell.splits)
  from map_first_reads [OF t, of fresh d 0] obtain ext out where
    m: "map_first fresh d h refs 0 = Some (h @ ext, out)" and
    r: "those (map (read_point (h @ ext)) out)
         = Some (map (\<lambda>(item, index). if real index < d then fresh item else item)
                   (zip ps [0 ..< length ps]))"
    by auto
  let ?h' = "(h @ ext) @ [ArrayObj out]"
  let ?out = "length (h @ ext)"
  have run: "map_store fresh d h arr = Some (?h', ?out)"
    using l m by (simp add: map_store_def alloc_def)
  have frame: "take (length h) ?h' = h" by simp
  have fresh_addr: "length h \<le> ?out" by simp
  have base: "read_points ?h' arr = Some ps"
    using read_points_append [OF assms, of "ext @ [ArrayObj out]"] by simp
  have lo: "lookup ?h' ?out = Some (ArrayObj out)" by (simp add: lookup_def)
  have "those (map (read_point ?h') out)
         = Some (map (\<lambda>(item, index). if real index < d then fresh item else item)
                   (zip ps [0 ..< length ps]))"
    using r by (rule those_read_append)
  then have res: "read_points ?h' ?out
         = Some (map (\<lambda>(item, index). if real index < d then fresh item else item)
                   (zip ps [0 ..< length ps]))"
    using lo by (simp add: read_points_def)
  show ?thesis using run frame fresh_addr base res by blast
qed

lemma flat_store_points: "read_points flat_store 3 = Some three_points"
  by (simp add: read_points_def read_point_def lookup_def flat_store_def three_points_def)

lemma impactedForecast_store_example:
  "impactedForecast_store flat_store 3 1.5 2 =
     Some (flat_store @
       [PointObj \<lparr> date = ''2024-01-01'', predicted = 150, upper_bound = 180,
                   lower_bound = 120, scenario_impact = Some 1.5, promotion_lift = None \<rparr>,
        PointObj \<lparr> date = ''2024-01-02'', predicted = 150, upper_bound = 180,
                   lower_bound = 120, scenario_impact = Some 1.5, promotion_lift = None \<rparr>,
        ArrayObj [4, 5, 2]], 6)"
  by (simp add: impactedForecast_store_def map_store_def lookup_def flat_store_def
      three_points_def alloc_def shocked_def)

text \<open>
  C7. Applying a scenario never writes to the base forecast. On a store in which the
  array \<open>arr\<close> holds the points \<open>fc\<close>, the demand shock and the promotion route both
  return; the store they leave has every cell of the store they started from unchanged,
  so the base array still holds the same points with the same \<open>predicted\<close>,
  \<open>upper_bound\<close> and \<open>lower_bound\<close>; and the perturbed forecast is a new array, at an
  address that was not allocated before.
\<close>

theorem scenario_frame:
  assumes "read_points h arr = Some fc"
  shows "(\<exists>h' out. impactedForecast_store h arr multiplier duration = Some (h', out)
           \<and> take (length h) h' = h
           \<and> read_points h' arr = Some fc
           \<and> length h \<le> out
           \<and> read_points h' out = Some (impactedForecast fc multiplier duration))
    \<and> (\<exists>h' out. promotionImpact_store h arr lift duration = Some (h', out)
           \<and> take (length h) h' = h
           \<and> read_points h' arr = Some fc
           \<and> length h \<le> out
           \<and> read_points h' out = Some (promotionImpact fc lift duration))"
proof -
  from map_store_frame [OF assms, of "shocked multiplier" duration]
  have a: "\<exists>h' out. impactedForecast_store h arr multiplier duration = Some (h', out)
           \<and> take (length h) h' = h
           \<and> read_points h' arr = Some fc
           \<and> length h \<le> out
           \<and> read_points h' out = Some (impactedForecast fc multiplier duration)"
    unfolding impactedForecast_store_def impactedForecast_def by blast
  from map_store_frame [OF assms, of "promoted lift" duration]
  have b: "\<exists>h' out. promotionImpact_store h arr lift duration = Some (h', out)
           \<and> take (length h) h' = h
           \<and> read_points h' arr = Some fc
           \<and> length h \<le> out
           \<and> read_points h' out = Some (promotionImpact fc lift duration)"
    unfolding promotionImpact_store_def promotionImpact_def by blast
  show ?thesis using a b by blast
qed

theorem scenario_frame_witness:
  "read_points flat_store 3 = Some three_points
   \<and> (\<exists>h' out. impactedForecast_store flat_store 3 1.5 2 = Some (h', out)
         \<and> take (length flat_store) h' = flat_store
         \<and> read_points h' 3 = Some three_points
         \<and> length flat_store \<le> out
         \<and> read_points h' out = Some (impactedForecast three_points 1.5 2))
   \<and> (\<exists>h' out. promotionImpact_store flat_store 3 2 2 = Some (h', out)
         \<and> take (length flat_store) h' = flat_store
         \<and> read_points h' 3 = Some three_points
         \<and> length flat_store \<le> out
         \<and> read_points h' out = Some (promotionImpact three_points 2 2))"
  using scenario_frame [OF flat_store_points, of "1.5" 2 2] flat_store_points by simp

section \<open>Seasonality\<close>

lemma checkPeriodicity_short: "length values \<le> lag \<Longrightarrow> checkPeriodicity values lag = 0"
  by (simp add: checkPeriodicity_def)

lemma series_values_length: "length (series_values data) = length data"
  by (simp add: series_values_def)

lemma detectSeasonality_monthly:
  "pattern (detectSeasonality data) = Some Monthly \<Longrightarrow>
     0.2 < checkPeriodicity (series_values data) 30"
  by (simp add: detectSeasonality_def Let_def split: if_splits)

text \<open>
  C10. A series of exactly 30 points meets the minimum and is analysed, but its monthly
  strength is 0, because \<open>checkPeriodicity\<close> returns 0 whenever the series is not longer
  than the lag; so \<open>detectSeasonality\<close> never returns the monthly pattern for it, and a
  monthly pattern needs at least 31 points.
\<close>

theorem monthly_needs_31_points:
  "(length data = 30 \<longrightarrow>
      reason (detectSeasonality data) = None
    \<and> checkPeriodicity (series_values data) 30 = 0
    \<and> pattern (detectSeasonality data) \<noteq> Some Monthly)
   \<and> (\<forall>values lag. length values \<le> lag \<longrightarrow> checkPeriodicity values lag = 0)
   \<and> (pattern (detectSeasonality data) = Some Monthly \<longrightarrow> 31 \<le> length data)"
proof -
  have short: "checkPeriodicity (series_values data) 30 = 0" if "length data \<le> 30"
    using that by (simp add: checkPeriodicity_short series_values_length)
  have no: "pattern (detectSeasonality data) \<noteq> Some Monthly" if "length data \<le> 30"
  proof
    assume "pattern (detectSeasonality data) = Some Monthly"
    then have "0.2 < checkPeriodicity (series_values data) 30"
      by (rule detectSeasonality_monthly)
    with short [OF that] show False by simp
  qed
  have analysed: "reason (detectSeasonality data) = None" if "length data = 30"
    using that by (simp add: detectSeasonality_def Let_def split: prod.splits)
  have need: "31 \<le> length data" if "pattern (detectSeasonality data) = Some Monthly"
  proof (rule ccontr)
    assume "\<not> 31 \<le> length data"
    then have "length data \<le> 30" by simp
    from no [OF this] that show False by simp
  qed
  show ?thesis using short no analysed need checkPeriodicity_short by auto
qed

theorem monthly_needs_31_points_witness:
  "length (flat_series 30) = 30
   \<and> checkPeriodicity (series_values (flat_series 30)) 30 = 0
   \<and> pattern (detectSeasonality (flat_series 30)) \<noteq> Some Monthly
   \<and> length [1, 2, 3 :: real] \<le> (7::nat) \<and> checkPeriodicity [1, 2, 3] 7 = 0
   \<and> pattern (detectSeasonality monthly_series) = Some Monthly
   \<and> 31 \<le> length monthly_series"
proof -
  have l: "length (flat_series 30) = 30" by (simp add: flat_series_def)
  have m: "pattern (detectSeasonality monthly_series) = Some Monthly" by code_simp
  have a: "checkPeriodicity (series_values (flat_series 30)) 30 = 0
    \<and> pattern (detectSeasonality (flat_series 30)) \<noteq> Some Monthly"
    using monthly_needs_31_points [of "flat_series 30"] l by blast
  have b: "checkPeriodicity [1, 2, 3] 7 = 0"
    using monthly_needs_31_points [of "flat_series 30"] by simp
  have c: "31 \<le> length monthly_series"
    using monthly_needs_31_points [of monthly_series] m by blast
  show ?thesis using l m a b c by simp
qed

end
